theory Spec2Isabelle
  imports Main "HOL-Library.Log_Nat"
begin

chapter \<open>MediPredict client scripts: validators, submission pipelines, renderers\<close>

text \<open>
  A shallow embedding of the form scripts of the medical prediction platform:
  \<^item> \<^verbatim>\<open>static/js/eye.js\<close> (the image upload of the eye disease detector),
  \<^item> the shared utilities and the lung cancer, CV and heart forms
    (\<^verbatim>\<open>unnamed/part_000\<close>, \<^verbatim>\<open>unnamed/part_001\<close>),
  \<^item> \<^verbatim>\<open>static/js/covid.js\<close> and \<^verbatim>\<open>static/js/cardiovascular.js\<close>.

  JavaScript strings are modelled as \<^typ>\<open>string\<close>, one \<^typ>\<open>char\<close> per code unit (so the
  model covers the code units below 256). DOM elements are records of the properties
  the scripts read and write; a handler is a function from the state before to the state
  after.
\<close>

section \<open>JavaScript numbers\<close>

text \<open>
  A Number is \<open>NaN\<close>, an infinity, or a finite double, held as the rational it denotes.
  The two zeros are one value \<open>Num 0\<close>: the scripts compare numbers and divide only by a
  square (which is never the negative zero), so the sign of a zero is never observed.
\<close>

datatype jsnum = NaN | Num rat | PosInf | NegInf

definition pow2 :: "int \<Rightarrow> rat" where
  "pow2 k = (if 0 \<le> k then 2 ^ nat k else 1 / 2 ^ nat (- k))"

definition pow10 :: "int \<Rightarrow> rat" where
  "pow10 k = (if 0 \<le> k then 10 ^ nat k else 1 / 10 ^ nat (- k))"

text \<open>\<open>binade x\<close> is the exponent \<open>e\<close> with \<open>2^e \<le> x < 2^(e+1)\<close>, for \<open>x > 0\<close>.\<close>

definition binade :: "rat \<Rightarrow> int" where
  "binade x =
     (let (p, q) = quotient_of x; k = bitlen p - bitlen q
      in if pow2 k \<le> x then k else k - 1)"

definition round_half_even :: "rat \<Rightarrow> int" where
  "round_half_even x =
     (let f = \<lfloor>x\<rfloor>; d = x - of_int f
      in if d < 1 / 2 then f else if 1 / 2 < d then f + 1 else if even f then f else f + 1)"

text \<open>
  \<open>fl x\<close> is the Number value for the real \<open>x\<close>: IEEE 754 binary64, round to nearest, ties
  to even; 53 significant bits, subnormals below \<open>2^-1022\<close>, overflow to an infinity.
\<close>

definition fl :: "rat \<Rightarrow> jsnum" where
  "fl x =
     (if x = 0 then Num 0
      else
        (let a = \<bar>x\<bar>; e = max (binade a) (- 1022); u = pow2 (e - 52);
             m = round_half_even (a / u)
         in if 1023 < e \<or> (e = 1023 \<and> m = 2 ^ 53) then (if 0 < x then PosInf else NegInf)
            else Num (if 0 < x then of_int m * u else - (of_int m * u))))"

text \<open>The relational operators; every comparison with \<open>NaN\<close> is false.\<close>

fun js_lt :: "jsnum \<Rightarrow> jsnum \<Rightarrow> bool" where
  "js_lt NaN _ = False"
| "js_lt _ NaN = False"
| "js_lt (Num a) (Num b) = (a < b)"
| "js_lt (Num a) PosInf = True"
| "js_lt (Num a) NegInf = False"
| "js_lt PosInf _ = False"
| "js_lt NegInf (Num b) = True"
| "js_lt NegInf PosInf = True"
| "js_lt NegInf NegInf = False"

definition js_gt :: "jsnum \<Rightarrow> jsnum \<Rightarrow> bool" where
  "js_gt a b = js_lt b a"

definition js_le :: "jsnum \<Rightarrow> jsnum \<Rightarrow> bool" where
  "js_le a b = (a \<noteq> NaN \<and> b \<noteq> NaN \<and> \<not> js_lt b a)"

definition js_ge :: "jsnum \<Rightarrow> jsnum \<Rightarrow> bool" where
  "js_ge a b = js_le b a"

definition isNaN :: "jsnum \<Rightarrow> bool" where
  "isNaN a = (a = NaN)"

text \<open>Multiplication and division of Numbers, each result rounded once.\<close>

fun js_mul :: "jsnum \<Rightarrow> jsnum \<Rightarrow> jsnum" where
  "js_mul NaN _ = NaN"
| "js_mul _ NaN = NaN"
| "js_mul (Num a) (Num b) = fl (a * b)"
| "js_mul (Num a) PosInf = (if a = 0 then NaN else if 0 < a then PosInf else NegInf)"
| "js_mul (Num a) NegInf = (if a = 0 then NaN else if 0 < a then NegInf else PosInf)"
| "js_mul PosInf (Num b) = (if b = 0 then NaN else if 0 < b then PosInf else NegInf)"
| "js_mul NegInf (Num b) = (if b = 0 then NaN else if 0 < b then NegInf else PosInf)"
| "js_mul PosInf PosInf = PosInf"
| "js_mul PosInf NegInf = NegInf"
| "js_mul NegInf PosInf = NegInf"
| "js_mul NegInf NegInf = PosInf"

text \<open>
  \<open>js_div a b\<close> is \<^verbatim>\<open>a / b\<close>, where a zero divisor is the positive zero (the only division
  of the scripts whose divisor can be zero divides by a square).
\<close>

fun js_div :: "jsnum \<Rightarrow> jsnum \<Rightarrow> jsnum" where
  "js_div NaN _ = NaN"
| "js_div _ NaN = NaN"
| "js_div (Num a) (Num b) =
     (if b = 0 then (if a = 0 then NaN else if 0 < a then PosInf else NegInf)
      else fl (a / b))"
| "js_div (Num a) PosInf = Num 0"
| "js_div (Num a) NegInf = Num 0"
| "js_div PosInf (Num b) = (if 0 \<le> b then PosInf else NegInf)"
| "js_div NegInf (Num b) = (if 0 \<le> b then NegInf else PosInf)"
| "js_div PosInf PosInf = NaN"
| "js_div PosInf NegInf = NaN"
| "js_div NegInf PosInf = NaN"
| "js_div NegInf NegInf = NaN"

section \<open>JavaScript strings\<close>

fun startsWith :: "string \<Rightarrow> string \<Rightarrow> bool" where
  "startsWith s [] = True"
| "startsWith [] (c # t) = False"
| "startsWith (a # s) (c # t) = (a = c \<and> startsWith s t)"

text \<open>\<^verbatim>\<open>s.includes(t)\<close>: \<open>t\<close> occurs in \<open>s\<close> as a contiguous substring.\<close>

fun includes_str :: "string \<Rightarrow> string \<Rightarrow> bool" where
  "includes_str [] t = (t = [])"
| "includes_str (a # s) t = (startsWith (a # s) t \<or> includes_str s t)"

text \<open>
  \<^verbatim>\<open>toLowerCase\<close> on code units below 256: the letters A to Z and the Latin-1 capitals
  (192 to 222 except the multiplication sign 215) move up by 32.
\<close>

definition lower_char :: "char \<Rightarrow> char" where
  "lower_char c =
     (let n = (of_char c :: nat)
      in if (65 \<le> n \<and> n \<le> 90) \<or> (192 \<le> n \<and> n \<le> 222 \<and> n \<noteq> 215)
         then char_of (n + 32) else c)"

definition toLowerCase :: "string \<Rightarrow> string" where
  "toLowerCase s = map lower_char s"

text \<open>\<^verbatim>\<open>s.replace(p, r)\<close> with a string pattern: the first occurrence only.\<close>

fun replace_first :: "string \<Rightarrow> string \<Rightarrow> string \<Rightarrow> string" where
  "replace_first [] p r = (if p = [] then r else [])"
| "replace_first (a # s) p r =
     (if startsWith (a # s) p then r @ drop (length p) (a # s)
      else a # replace_first s p r)"

text \<open>\<^verbatim>\<open>xs.join(sep)\<close> on an array of strings.\<close>

fun join :: "string \<Rightarrow> string list \<Rightarrow> string" where
  "join sep [] = []"
| "join sep [x] = x"
| "join sep (x # y # xs) = x @ sep @ join sep (y # xs)"

section \<open>\<^verbatim>\<open>parseInt\<close> and \<^verbatim>\<open>parseFloat\<close>\<close>

text \<open>White space and line terminators among the code units below 256.\<close>

definition isWhiteSpace :: "char \<Rightarrow> bool" where
  "isWhiteSpace c = ((of_char c :: nat) \<in> {9, 10, 11, 12, 13, 32, 160})"

definition trimStart :: "string \<Rightarrow> string" where
  "trimStart s = dropWhile isWhiteSpace s"

text \<open>The value of a digit in a radix up to 36, if it is one.\<close>

definition digit_value :: "char \<Rightarrow> nat option" where
  "digit_value c =
     (let n = (of_char c :: nat)
      in if 48 \<le> n \<and> n \<le> 57 then Some (n - 48)
         else if 97 \<le> n \<and> n \<le> 122 then Some (n - 87)
         else if 65 \<le> n \<and> n \<le> 90 then Some (n - 55)
         else None)"

definition isRadixDigit :: "nat \<Rightarrow> char \<Rightarrow> bool" where
  "isRadixDigit R c = (case digit_value c of None \<Rightarrow> False | Some d \<Rightarrow> d < R)"

definition digits_value :: "nat \<Rightarrow> string \<Rightarrow> nat" where
  "digits_value R z = foldl (\<lambda>acc c. R * acc + (case digit_value c of None \<Rightarrow> 0 | Some d \<Rightarrow> d)) 0 z"

text \<open>The sign a numeric string starts with, and the rest.\<close>

definition split_sign :: "string \<Rightarrow> bool \<times> string" where
  "split_sign s =
     (case s of
        [] \<Rightarrow> (False, [])
      | c # r \<Rightarrow> if c = CHR ''-'' then (True, r) else if c = CHR ''+'' then (False, r) else (False, s))"

text \<open>
  \<^verbatim>\<open>parseInt(s)\<close> with no radix argument: leading white space is skipped, a sign is read, a
  prefix \<^verbatim>\<open>0x\<close> or \<^verbatim>\<open>0X\<close> selects radix 16, and the longest run of digits of the radix is the
  number; what follows the digits is ignored. \<open>mathInt\<close> is the integer read, if there is
  one; \<^verbatim>\<open>parseInt\<close> returns its Number value, and \<open>NaN\<close> when no digit was read.
\<close>

definition mathInt :: "string \<Rightarrow> int option" where
  "mathInt s =
     (let (neg, u) = split_sign (trimStart s);
          hex = (startsWith u ''0x'' \<or> startsWith u ''0X'');
          R = (if hex then 16 else 10);
          z = takeWhile (isRadixDigit R) (if hex then drop 2 u else u)
      in if z = [] then None
         else Some (if neg then - int (digits_value R z) else int (digits_value R z)))"

definition parseInt :: "string \<Rightarrow> jsnum" where
  "parseInt s = (case mathInt s of None \<Rightarrow> NaN | Some k \<Rightarrow> fl (of_int k))"

text \<open>The exponent part \<^verbatim>\<open>e\<close>, sign, digits of a decimal literal; 0 when there is none.\<close>

definition exponentPart :: "string \<Rightarrow> int" where
  "exponentPart s =
     (case s of
        [] \<Rightarrow> 0
      | c # r \<Rightarrow>
          if c = CHR ''e'' \<or> c = CHR ''E'' then
            (let (neg, v) = split_sign r; ds = takeWhile (isRadixDigit 10) v
             in if ds = [] then 0
                else if neg then - int (digits_value 10 ds) else int (digits_value 10 ds))
          else 0)"

text \<open>
  \<^verbatim>\<open>parseFloat(s)\<close>: the longest prefix of the trimmed string that is a decimal literal
  (sign, \<^verbatim>\<open>Infinity\<close>, or digits with an optional fraction and exponent), rounded to a
  double; \<open>NaN\<close> when no prefix is one.
\<close>

definition parseFloat :: "string \<Rightarrow> jsnum" where
  "parseFloat s =
     (let (neg, u) = split_sign (trimStart s)
      in if startsWith u ''Infinity'' then (if neg then NegInf else PosInf)
         else
           (let d1 = takeWhile (isRadixDigit 10) u;
                r1 = dropWhile (isRadixDigit 10) u;
                dot = startsWith r1 ''.'';
                d2 = (if dot then takeWhile (isRadixDigit 10) (tl r1) else []);
                r2 = (if dot then dropWhile (isRadixDigit 10) (tl r1) else r1);
                mv = of_nat (digits_value 10 (d1 @ d2)) * pow10 (exponentPart r2 - int (length d2))
            in if d1 = [] \<and> d2 = [] then NaN else fl (if neg then - mv else mv)))"

section \<open>Shared utilities (\<^verbatim>\<open>unnamed/part_000\<close>, lines 1 to 561)\<close>

subsection \<open>The result view\<close>

text \<open>
  The three elements the result functions receive; each may be \<^verbatim>\<open>null\<close>. Of the container
  the functions write \<^verbatim>\<open>style.display\<close> and \<^verbatim>\<open>className\<close>, of the other two \<^verbatim>\<open>textContent\<close>.
\<close>

record container =
  c_display :: string
  c_className :: string

record result_elems =
  resultContainer :: "container option"
  resultText :: "string option"
  resultDescription :: "string option"

text \<open>
  A prediction response. A percentage is held as the text JavaScript prints for it; a
  \<^verbatim>\<open>probability\<close> that is a plain number has none of the four named buckets.
\<close>

record probability =
  high_risk :: "string option"
  low_risk :: "string option"
  positive :: "string option"
  negative :: "string option"

record prediction_result =
  prediction :: string
  probability :: "probability option"
  other_conditions :: "string list option"

text \<open>\<^verbatim>\<open>showResult\<close> (lines 112 to 151): the risk tier is read off the prediction text.\<close>

definition isHighRisk :: "string \<Rightarrow> bool" where
  "isHighRisk p =
     (includes_str (toLowerCase p) ''high risk'' \<or> includes_str (toLowerCase p) ''positive'')"

definition showResult_description :: "prediction_result \<Rightarrow> string" where
  "showResult_description result =
     (let d0 = (if isHighRisk (prediction result)
                then ''Please consult with a healthcare professional for further evaluation and discuss these findings.''
                else ''Based on the provided information, the risk appears to be lower. Continue maintaining healthy lifestyle choices.'');
          d1 = (case probability result of
                  None \<Rightarrow> d0
                | Some pr \<Rightarrow>
                    (case (high_risk pr, low_risk pr) of
                       (Some h, Some l) \<Rightarrow> d0 @ '' (High Risk: '' @ h @ ''%, Low Risk: '' @ l @ ''%)''
                     | _ \<Rightarrow>
                        (case (positive pr, negative pr) of
                           (Some p, Some n) \<Rightarrow> d0 @ '' (Positive: '' @ p @ ''%, Negative: '' @ n @ ''%)''
                         | _ \<Rightarrow> d0)))
      in case other_conditions result of
           None \<Rightarrow> d1
         | Some cs \<Rightarrow>
             if length cs > 0 then d1 @ [CHR 0x0A, CHR 0x0A] @ ''Additional findings: '' @ join '', '' cs
             else d1)"

definition showResult :: "result_elems \<Rightarrow> prediction_result \<Rightarrow> string \<Rightarrow> string \<Rightarrow> result_elems" where
  "showResult els result positiveClass negativeClass =
     (case (resultContainer els, resultText els, resultDescription els) of
        (Some c, Some t, Some d) \<Rightarrow>
          els\<lparr>resultContainer :=
                 Some (c\<lparr>c_display := ''block'',
                         c_className := ''result-container '' @
                           (if isHighRisk (prediction result) then positiveClass else negativeClass)\<rparr>),
              resultText := Some (prediction result),
              resultDescription := Some (showResult_description result)\<rparr>
      | _ \<Rightarrow> els)"

text \<open>\<^verbatim>\<open>showError\<close> (lines 163 to 185); \<open>friendlyMessage\<close> is its local variable of that name.\<close>

definition friendlyMessage :: "string \<Rightarrow> string" where
  "friendlyMessage errorMessage =
     (if errorMessage \<noteq> [] then
        (if includes_str errorMessage ''fetch'' then
           ''Unable to connect to server. Please check your internet connection.''
         else if includes_str errorMessage ''JSON'' then
           ''Server returned invalid response. Please try again.''
         else if includes_str (toLowerCase errorMessage) ''model'' then
           ''Prediction service is currently unavailable. Please try again later.''
         else errorMessage)
      else ''Please try again or check your connection.'')"

definition showError :: "result_elems \<Rightarrow> string \<Rightarrow> string \<Rightarrow> result_elems" where
  "showError els errorMessage errorClass =
     (case (resultContainer els, resultText els, resultDescription els) of
        (Some c, Some t, Some d) \<Rightarrow>
          els\<lparr>resultContainer :=
                 Some (c\<lparr>c_display := ''block'', c_className := ''result-container '' @ errorClass\<rparr>),
              resultText := Some ''Error Occurred'',
              resultDescription := Some (friendlyMessage errorMessage)\<rparr>
      | _ \<Rightarrow> els)"

subsection \<open>Validators\<close>

text \<open>
  What a validator does besides returning: an \<^verbatim>\<open>alert\<close> with its text, the range alert of
  \<^verbatim>\<open>validateNumericInput\<close> (field name, \<^verbatim>\<open>min\<close>, \<^verbatim>\<open>max\<close> and the value it interpolates), and
  \<^verbatim>\<open>focus()\<close> on the input.
\<close>

datatype ui_effect = Alert string | AlertRange string jsnum jsnum jsnum | Focus

text \<open>\<^verbatim>\<open>validateNumericInput(input, min, max, fieldName)\<close> (lines 195 to 211), on \<^verbatim>\<open>input.value\<close>.\<close>

definition validateNumericInput :: "string \<Rightarrow> jsnum \<Rightarrow> jsnum \<Rightarrow> string \<Rightarrow> bool \<times> ui_effect list" where
  "validateNumericInput input_value min_v max_v fieldName =
     (let v = parseFloat input_value
      in if isNaN v then (False, [Alert (''Please enter a valid number for '' @ fieldName), Focus])
         else if js_lt v min_v \<or> js_gt v max_v then (False, [AlertRange fieldName min_v max_v v, Focus])
         else (True, []))"

text \<open>\<^verbatim>\<open>validateBinaryInput(input, fieldName)\<close> (lines 219 to 229).\<close>

definition validateBinaryInput :: "string \<Rightarrow> string \<Rightarrow> bool \<times> ui_effect list" where
  "validateBinaryInput input_value fieldName =
     (let v = parseInt input_value
      in if isNaN v \<or> (v \<noteq> Num 0 \<and> v \<noteq> Num 1)
         then (False, [Alert (''Please enter 0 or 1 for '' @ fieldName), Focus])
         else (True, []))"

text \<open>
  The \<^verbatim>\<open>input\<close> listener installed by \<^verbatim>\<open>addInputValidation(input, min, max, isBinary)\<close> (lines
  253 to 280): the border colour it leaves on the input.
\<close>

definition inputValidation_borderColor :: "string \<Rightarrow> jsnum \<Rightarrow> jsnum \<Rightarrow> bool \<Rightarrow> string" where
  "inputValidation_borderColor input_value min_v max_v isBinary =
     (let v = parseFloat input_value
      in if isBinary then
           (if isNaN v \<or> (v \<noteq> Num 0 \<and> v \<noteq> Num 1) then ''#e74c3c'' else ''#2ecc71'')
         else
           (if isNaN v \<or> js_lt v min_v \<or> js_gt v max_v then ''#e74c3c'' else ''#2ecc71''))"

subsection \<open>The other renderers' risk tiers\<close>

text \<open>
  \<^verbatim>\<open>displayResults\<close> of \<^verbatim>\<open>cardiovascular.js\<close> (lines 217 to 254): the tier, the classes of the
  container and the heading it writes.
\<close>

definition cardio_isHighRisk :: "string \<Rightarrow> bool" where
  "cardio_isHighRisk p = includes_str p ''HIGH RISK''"

definition cardio_displayResults_classes :: "prediction_result \<Rightarrow> string list" where
  "cardio_displayResults_classes result =
     [''result-container'', if cardio_isHighRisk (prediction result) then ''high-risk'' else ''low-risk'', ''show'']"

definition cardio_displayResults_heading :: "prediction_result \<Rightarrow> string" where
  "cardio_displayResults_heading result =
     (if cardio_isHighRisk (prediction result) then ''HIGH RISK of Heart Disease''
      else ''LOW RISK of Heart Disease'')"

text \<open>The catch branch of the prediction form's submit handler (\<^verbatim>\<open>unnamed/part_001\<close>, lines 158
  to 173) and its \<^verbatim>\<open>showError\<close> (lines 89 to 94).\<close>

definition prediction_catch_message :: "string \<Rightarrow> string" where
  "prediction_catch_message error_message =
     (if includes_str error_message ''fetch'' then
        ''Unable to connect to server. Please check your internet connection.''
      else if includes_str error_message ''JSON'' then
        ''Server returned invalid response. Please try again.''
      else if error_message \<noteq> [] then error_message
      else ''Unable to process prediction. Please try again.'')"

text \<open>
  The prediction form dereferences its three result elements unguarded, so its functions
  are modelled on the pages where the elements exist.
\<close>

record result_view =
  rv_container :: container
  rv_text :: string
  rv_description :: string

definition prediction_showError :: "result_view \<Rightarrow> string \<Rightarrow> result_view" where
  "prediction_showError v errorMessage =
     v\<lparr>rv_container := (rv_container v)\<lparr>c_display := ''block'', c_className := ''result-container result-positive''\<rparr>,
       rv_text := ''Error occurred'',
       rv_description := (if errorMessage \<noteq> [] then errorMessage
                          else ''Please try again or check your connection.'')\<rparr>"

text \<open>What \<open>contains\<close> and "matches case-insensitively" mean, independently of the code.\<close>

definition occurs_in :: "string \<Rightarrow> string \<Rightarrow> bool" where
  "occurs_in t s \<longleftrightarrow> (\<exists>u v. s = u @ t @ v)"

definition occurs_ci :: "string \<Rightarrow> string \<Rightarrow> bool" where
  "occurs_ci t s \<longleftrightarrow> (\<exists>u w v. s = u @ w @ v \<and> toLowerCase w = toLowerCase t)"

text \<open>A result view with all three elements present, before any result is shown.\<close>

definition els0 :: result_elems where
  "els0 = \<lparr>resultContainer = Some \<lparr>c_display = ''none'', c_className = ''result-container''\<rparr>,
            resultText = Some [], resultDescription = Some []\<rparr>"

definition view0 :: result_view where
  "view0 = \<lparr>rv_container = \<lparr>c_display = ''none'', c_className = ''result-container''\<rparr>,
             rv_text = [], rv_description = []\<rparr>"

section \<open>COVID-19 form (\<^verbatim>\<open>static/js/covid.js\<close>)\<close>

subsection \<open>Fields and the schema\<close>

text \<open>
  An input element of the form: its \<^verbatim>\<open>id\<close> and \<^verbatim>\<open>name\<close> attributes, its \<^verbatim>\<open>value\<close>, its
  \<^verbatim>\<open>classList\<close>, and the text of the \<^verbatim>\<open>LABEL\<close> element right before it, if there is one.
  \<open>dom\<close> is \<^verbatim>\<open>document.getElementById\<close> on the inputs.
\<close>

record field =
  f_id :: string
  f_name :: string
  f_value :: string
  f_classes :: "string list"
  f_label :: "string option"

type_synonym dom = "string \<Rightarrow> field option"

text \<open>
  An entry of \<^verbatim>\<open>validationRanges\<close>: \<^verbatim>\<open>min\<close>, \<^verbatim>\<open>max\<close> and the optional \<^verbatim>\<open>normal\<close> pair (\<^verbatim>\<open>unit\<close> is
  read only by the blur message and is left out). A numeric literal of the source denotes
  the double nearest to it.
\<close>

record range =
  r_min :: jsnum
  r_max :: jsnum
  r_normal :: "(jsnum \<times> jsnum) option"

definition lit :: "rat \<Rightarrow> jsnum" where
  "lit x = fl x"

definition range_of :: "rat \<Rightarrow> rat \<Rightarrow> (rat \<times> rat) option \<Rightarrow> range" where
  "range_of lo hi normal =
     \<lparr>r_min = lit lo, r_max = lit hi, r_normal = map_option (\<lambda>(a, b). (lit a, lit b)) normal\<rparr>"

definition requiredFields :: "string list" where
  "requiredFields =
     [''age'', ''leukocytes'', ''neutrophilsP'', ''lymphocytesP'', ''monocytesP'',
      ''eosinophilsP'', ''basophilsP'', ''neutrophils'', ''lymphocytes'',
      ''monocytes'', ''eosinophils'', ''basophils'', ''redbloodcells'', ''mcv'',
      ''mch'', ''mchc'', ''rdwP'', ''hemoglobin'', ''hematocritP'', ''platelets'', ''mpv'']"

definition validationRanges :: "string \<Rightarrow> range option" where
  "validationRanges = map_of
     [(''age'', range_of 0 120 None),
      (''leukocytes'', range_of (35 / 10) 15 (Some (4, 11))),
      (''neutrophilsP'', range_of 35 85 (Some (45, 70))),
      (''lymphocytesP'', range_of 10 60 (Some (20, 50))),
      (''monocytesP'', range_of 0 15 (Some (2, 10))),
      (''eosinophilsP'', range_of 0 10 (Some (1, 4))),
      (''basophilsP'', range_of 0 3 (Some (5 / 10, 1))),
      (''neutrophils'', range_of 1 12 (Some (18 / 10, 77 / 10))),
      (''lymphocytes'', range_of (5 / 10) 8 (Some (1, 4))),
      (''monocytes'', range_of (1 / 10) 2 (Some (2 / 10, 8 / 10))),
      (''eosinophils'', range_of 0 1 (Some (0, 4 / 10))),
      (''basophils'', range_of 0 (3 / 10) (Some (0, 1 / 10))),
      (''redbloodcells'', range_of 3 7 (Some (42 / 10, 54 / 10))),
      (''mcv'', range_of 70 110 (Some (80, 100))),
      (''mch'', range_of 20 40 (Some (27, 33))),
      (''mchc'', range_of 28 38 (Some (32, 36))),
      (''rdwP'', range_of 10 20 (Some (115 / 10, 145 / 10))),
      (''hemoglobin'', range_of 6 20 (Some (12, 17))),
      (''hematocritP'', range_of 25 60 (Some (36, 50))),
      (''platelets'', range_of 50 800 (Some (150, 450))),
      (''mpv'', range_of 5 15 (Some (7, 12)))]"

subsection \<open>Validation of one field\<close>

definition classList_remove :: "string list \<Rightarrow> string list \<Rightarrow> string list" where
  "classList_remove tokens cs = filter (\<lambda>c. c \<notin> set tokens) cs"

definition classList_add :: "string \<Rightarrow> string list \<Rightarrow> string list" where
  "classList_add c cs = (if c \<in> set cs then cs else cs @ [c])"

definition classList_contains :: "string list \<Rightarrow> string \<Rightarrow> bool" where
  "classList_contains cs c = (c \<in> set cs)"

definition add_class :: "string \<Rightarrow> field \<Rightarrow> field" where
  "add_class c f = f\<lparr>f_classes := classList_add c (f_classes f)\<rparr>"

text \<open>\<^verbatim>\<open>field.name || field.id\<close>, the key \<^verbatim>\<open>validateField\<close> looks a field up by.\<close>

definition fieldName_of :: "field \<Rightarrow> string" where
  "fieldName_of field = (if f_name field \<noteq> [] then f_name field else f_id field)"

text \<open>
  \<^verbatim>\<open>validateField(field)\<close> (lines 110 to 146), with the table \<^verbatim>\<open>validationRanges\<close> as its first
  argument: the value returned and the field with its new class list.
\<close>

definition validateField :: "(string \<Rightarrow> range option) \<Rightarrow> field \<Rightarrow> bool \<times> field" where
  "validateField ranges field =
     (let fieldName = fieldName_of field;
          v = parseFloat (f_value field);
          validation = ranges fieldName;
          field1 = field\<lparr>f_classes :=
                     classList_remove [''valid'', ''invalid'', ''abnormal''] (f_classes field)\<rparr>
      in if f_value field = [] then (False, field1)
         else
           (case validation of
              None \<Rightarrow> (False, add_class ''invalid'' field1)
            | Some r \<Rightarrow>
                if isNaN v then (False, add_class ''invalid'' field1)
                else if js_lt v (r_min r) \<or> js_gt v (r_max r) then
                  (False, add_class ''invalid'' field1)
                else
                  (case r_normal r of
                     Some (normalMin, normalMax) \<Rightarrow>
                       if js_lt v normalMin \<or> js_gt v normalMax
                       then (True, add_class ''abnormal'' field1)
                       else (True, add_class ''valid'' field1)
                   | None \<Rightarrow> (True, add_class ''valid'' field1))))"

text \<open>
  The validity tier of a field as the page shows it: the class \<^verbatim>\<open>validateField\<close> left on the
  element, and none of the three for a field that is empty.
\<close>

datatype validity = Empty | Invalid | ValidAbnormal | ValidNormal

definition validity_of :: "field \<Rightarrow> validity" where
  "validity_of f =
     (if classList_contains (f_classes f) ''invalid'' then Invalid
      else if classList_contains (f_classes f) ''abnormal'' then ValidAbnormal
      else if classList_contains (f_classes f) ''valid'' then ValidNormal
      else Empty)"

text \<open>A field with the given id and value, no \<^verbatim>\<open>name\<close>, no class and no label.\<close>

definition field_of :: "string \<Rightarrow> string \<Rightarrow> field" where
  "field_of i v = \<lparr>f_id = i, f_name = [], f_value = v, f_classes = [], f_label = None\<rparr>"

subsection \<open>The page\<close>

record button =
  b_disabled :: bool
  b_text :: string

text \<open>The results section: \<^verbatim>\<open>style.display\<close>, its class list and the result written into it.\<close>

record results_section =
  rs_display :: string
  rs_classes :: "string list"
  rs_result :: "prediction_result option"

text \<open>
  The page of the form. \<^verbatim>\<open>submitBtn\<close>, \<^verbatim>\<open>loadingSpinner\<close>, \<^verbatim>\<open>resultsSection\<close> and \<^verbatim>\<open>progressBar\<close>
  may be \<^verbatim>\<open>null\<close>; the form itself exists, since the submit handler is attached to it. Of
  the progress bar the page holds the percentage written into \<^verbatim>\<open>style.width\<close>, of the error
  element after the form the message in it. \<open>cp_requests\<close> are the bodies of the \<^verbatim>\<open>fetch\<close>
  calls issued so far, \<open>cp_pending\<close> the number of them not yet settled.
\<close>

record covid_page =
  cp_fields :: dom
  cp_submitBtn :: "button option"
  cp_loadingSpinner :: "string option"
  cp_resultsSection :: "results_section option"
  cp_progressBar :: "jsnum option"
  cp_error :: "string option"
  cp_requests :: "(string \<times> jsnum) list list"
  cp_pending :: nat

subsection \<open>Progress and the submit button\<close>

text \<open>The test both \<^verbatim>\<open>updateProgress\<close> and \<^verbatim>\<open>updateSubmitButton\<close> apply to a required field.\<close>

definition filled :: "dom \<Rightarrow> string \<Rightarrow> bool" where
  "filled d fieldName =
     (case d fieldName of
        None \<Rightarrow> False
      | Some field \<Rightarrow> f_value field \<noteq> [] \<and> \<not> classList_contains (f_classes field) ''invalid'')"

text \<open>\<^verbatim>\<open>updateProgress\<close> (lines 192 to 202), with \<^verbatim>\<open>requiredFields\<close> as its first argument.\<close>

definition progress :: "string list \<Rightarrow> dom \<Rightarrow> jsnum" where
  "progress required d =
     js_mul (js_div (Num (of_nat (length (filter (filled d) required))))
                    (Num (of_nat (length required))))
            (Num 100)"

definition updateProgress :: "string list \<Rightarrow> covid_page \<Rightarrow> covid_page" where
  "updateProgress required p =
     (case cp_progressBar p of
        None \<Rightarrow> p
      | Some w \<Rightarrow> p\<lparr>cp_progressBar := Some (progress required (cp_fields p))\<rparr>)"

text \<open>\<^verbatim>\<open>updateSubmitButton\<close> (lines 204 to 213).\<close>

definition updateSubmitButton :: "string list \<Rightarrow> covid_page \<Rightarrow> covid_page" where
  "updateSubmitButton required p =
     (let allValid = list_all (filled (cp_fields p)) required
      in case cp_submitBtn p of
           None \<Rightarrow> p
         | Some b \<Rightarrow> p\<lparr>cp_submitBtn := Some (b\<lparr>b_disabled := \<not> allValid\<rparr>)\<rparr>)"

subsection \<open>Validation of the form\<close>

text \<open>\<^verbatim>\<open>getFieldLabel\<close> (lines 239 to 245).\<close>

definition getFieldLabel :: "dom \<Rightarrow> string \<Rightarrow> string" where
  "getFieldLabel d fieldName =
     (case d fieldName of
        None \<Rightarrow> fieldName
      | Some field \<Rightarrow>
          (case f_label field of
             None \<Rightarrow> fieldName
           | Some t \<Rightarrow> replace_first t '':'' []))"

text \<open>
  One round of the \<^verbatim>\<open>forEach\<close> of \<^verbatim>\<open>validateForm\<close> (lines 219 to 230), on the inputs, the
  \<^verbatim>\<open>errors\<close> array and \<^verbatim>\<open>isValid\<close>.
\<close>

definition validateForm_step ::
  "(string \<Rightarrow> range option) \<Rightarrow> dom \<times> string list \<times> bool \<Rightarrow> string \<Rightarrow> dom \<times> string list \<times> bool" where
  "validateForm_step ranges st fieldName =
     (case st of (d, errors, isValid) \<Rightarrow>
        (case d fieldName of
           None \<Rightarrow> (d, errors, isValid)
         | Some field \<Rightarrow>
             if f_value field = [] then
               (d, errors @ [getFieldLabel d fieldName @ '' is required''], False)
             else
               (case validateField ranges field of
                  (ok, field') \<Rightarrow>
                    if \<not> ok then
                      (d(fieldName \<mapsto> field'),
                       errors @ [getFieldLabel (d(fieldName \<mapsto> field')) fieldName @ '' has an invalid value''],
                       False)
                    else (d(fieldName \<mapsto> field'), errors, isValid))))"

text \<open>
  The separator between the listed errors: a line feed, the bullet and a space. The
  bullet is held as the bytes the source file stores for it.
\<close>

definition bullet :: string where
  "bullet = [CHR 0xE2, CHR 0x80, CHR 0x9A, CHR 0xC3, CHR 0x84, CHR 0xC2, CHR 0xA2]"

definition error_list_message :: "string list \<Rightarrow> string" where
  "error_list_message errors =
     ''Please correct the following errors:'' @ [CHR 0x0A] @ bullet @ '' '' @
       join ([CHR 0x0A] @ bullet @ '' '') errors"

text \<open>\<^verbatim>\<open>showError\<close> of the form (lines 394 to 424): the message element replaces the one shown.\<close>

definition covid_showError :: "string \<Rightarrow> covid_page \<Rightarrow> covid_page" where
  "covid_showError message p = p\<lparr>cp_error := Some message\<rparr>"

text \<open>\<^verbatim>\<open>validateForm\<close> (lines 215 to 237): the value returned and the page after it.\<close>

definition validateForm ::
  "(string \<Rightarrow> range option) \<Rightarrow> string list \<Rightarrow> covid_page \<Rightarrow> bool \<times> covid_page" where
  "validateForm ranges required p =
     (case foldl (validateForm_step ranges) (cp_fields p, [], True) required of
        (d, errors, isValid) \<Rightarrow>
          (isValid,
           if \<not> isValid then covid_showError (error_list_message errors) (p\<lparr>cp_fields := d\<rparr>)
           else p\<lparr>cp_fields := d\<rparr>))"

subsection \<open>Submission\<close>

text \<open>
  \<^verbatim>\<open>formData\<close> of \<^verbatim>\<open>submitPrediction\<close>: the parsed value of every required field the page has, in
  the order of \<^verbatim>\<open>requiredFields\<close>.
\<close>

definition formData_of :: "string list \<Rightarrow> dom \<Rightarrow> (string \<times> jsnum) list" where
  "formData_of required d =
     concat (map (\<lambda>n. case d n of None \<Rightarrow> [] | Some field \<Rightarrow> [(n, parseFloat (f_value field))])
                 required)"

text \<open>
  \<^verbatim>\<open>submitPrediction\<close> (lines 247 to 299) up to its \<^verbatim>\<open>await fetch\<close>: the loading state is shown
  and the request is issued.
\<close>

definition submitPrediction :: "string list \<Rightarrow> covid_page \<Rightarrow> covid_page" where
  "submitPrediction required p =
     (let p1 = p\<lparr>cp_submitBtn :=
                   map_option (\<lambda>b. b\<lparr>b_disabled := True, b_text := ''Analyzing...''\<rparr>) (cp_submitBtn p),
                 cp_loadingSpinner := map_option (\<lambda>_. ''block'') (cp_loadingSpinner p),
                 cp_resultsSection :=
                   map_option (\<lambda>r. r\<lparr>rs_display := ''none'',
                                        rs_classes := classList_remove [''show''] (rs_classes r)\<rparr>)
                     (cp_resultsSection p)\<rparr>
      in p1\<lparr>cp_requests := cp_requests p1 @ [formData_of required (cp_fields p1)],
            cp_pending := Suc (cp_pending p1)\<rparr>)"

text \<open>
  How a request ends: \<^verbatim>\<open>fetch\<close> or \<^verbatim>\<open>response.json()\<close> rejects; the response is \<^verbatim>\<open>ok\<close> and
  carries a result; or it is not \<^verbatim>\<open>ok\<close> and carries \<^verbatim>\<open>result.error\<close>, if any.
\<close>

datatype fetch_outcome = Rejected | RespondedOk prediction_result | RespondedError "string option"

text \<open>
  \<^verbatim>\<open>displayResults\<close> (lines 301 to 360): the page after it, and whether it threw (it reads
  \<^verbatim>\<open>probability.negative\<close> after it has restyled the section, and throws when the result has
  no \<^verbatim>\<open>probability\<close>).
\<close>

definition covid_displayResults :: "prediction_result \<Rightarrow> covid_page \<Rightarrow> covid_page \<times> bool" where
  "covid_displayResults result p =
     (case cp_resultsSection p of
        None \<Rightarrow> (p, False)
      | Some r \<Rightarrow>
          (let r1 = r\<lparr>rs_classes :=
                       [''results-section'',
                        if includes_str (prediction result) ''Positive'' then ''covid-positive''
                        else ''covid-negative'']\<rparr>
           in case probability result of
                None \<Rightarrow> (p\<lparr>cp_resultsSection := Some r1\<rparr>, True)
              | Some pr \<Rightarrow>
                  (p\<lparr>cp_resultsSection := Some (r1\<lparr>rs_display := ''block'', rs_result := Some result\<rparr>)\<rparr>,
                   False)))"

text \<open>
  The rest of \<^verbatim>\<open>submitPrediction\<close>, run when a pending request ends: the \<^verbatim>\<open>try\<close> body after
  the \<^verbatim>\<open>await\<close>, the \<^verbatim>\<open>catch\<close> branch and the \<^verbatim>\<open>finally\<close> block.
\<close>

definition settle :: "fetch_outcome \<Rightarrow> covid_page \<Rightarrow> covid_page" where
  "settle outcome p =
     (if cp_pending p = 0 then p
      else
        (let network = ''Network error. Please check your connection and try again.'';
             p1 = (case outcome of
                     Rejected \<Rightarrow> covid_showError network p
                   | RespondedOk result \<Rightarrow>
                       (case covid_displayResults result p of
                          (p', threw) \<Rightarrow> if threw then covid_showError network p' else p')
                   | RespondedError e \<Rightarrow>
                       covid_showError
                         (case e of
                            None \<Rightarrow> ''An error occurred during prediction''
                          | Some m \<Rightarrow> if m \<noteq> [] then m else ''An error occurred during prediction'')
                         p)
         in p1\<lparr>cp_submitBtn :=
                 map_option (\<lambda>b. b\<lparr>b_disabled := False, b_text := ''Get COVID-19 Assessment''\<rparr>)
                   (cp_submitBtn p1),
               cp_loadingSpinner := map_option (\<lambda>_. ''none'') (cp_loadingSpinner p1),
               cp_pending := cp_pending p1 - 1\<rparr>))"

text \<open>The \<^verbatim>\<open>submit\<close> listener of the form (lines 64 to 69).\<close>

definition on_submit :: "(string \<Rightarrow> range option) \<Rightarrow> string list \<Rightarrow> covid_page \<Rightarrow> covid_page" where
  "on_submit ranges required p =
     (case validateForm ranges required p of
        (ok, p') \<Rightarrow> if ok then submitPrediction required p' else p')"

text \<open>
  The \<^verbatim>\<open>input\<close> listener of a required field (lines 50 to 54), after the browser has stored
  the text the user typed.
\<close>

definition on_input :: "(string \<Rightarrow> range option) \<Rightarrow> string list \<Rightarrow> string \<Rightarrow> string \<Rightarrow> covid_page \<Rightarrow> covid_page" where
  "on_input ranges required fieldName text p =
     (case cp_fields p fieldName of
        None \<Rightarrow> p
      | Some field \<Rightarrow>
          if fieldName \<in> set required then
            updateSubmitButton required
              (updateProgress required
                (p\<lparr>cp_fields :=
                     (cp_fields p)(fieldName \<mapsto> snd (validateField ranges (field\<lparr>f_value := text\<rparr>)))\<rparr>))
          else p\<lparr>cp_fields := (cp_fields p)(fieldName \<mapsto> field\<lparr>f_value := text\<rparr>)\<rparr>)"

text \<open>
  What happens on the page between two handler runs: the user tries to submit the form
  through its submit control, or a pending request ends. The browser starts no
  submission through a disabled control.
\<close>

datatype page_event = SubmitAttempt | RequestEnds fetch_outcome

definition submit_attempt :: "(string \<Rightarrow> range option) \<Rightarrow> string list \<Rightarrow> covid_page \<Rightarrow> covid_page" where
  "submit_attempt ranges required p =
     (case cp_submitBtn p of
        None \<Rightarrow> on_submit ranges required p
      | Some b \<Rightarrow> if b_disabled b then p else on_submit ranges required p)"

definition covid_step :: "(string \<Rightarrow> range option) \<Rightarrow> string list \<Rightarrow> covid_page \<Rightarrow> page_event \<Rightarrow> covid_page" where
  "covid_step ranges required p e =
     (case e of
        SubmitAttempt \<Rightarrow> submit_attempt ranges required p
      | RequestEnds outcome \<Rightarrow> settle outcome p)"

definition covid_run :: "(string \<Rightarrow> range option) \<Rightarrow> string list \<Rightarrow> page_event list \<Rightarrow> covid_page \<Rightarrow> covid_page" where
  "covid_run ranges required es p = foldl (covid_step ranges required) p es"

section \<open>CV form (\<^verbatim>\<open>unnamed/part_000\<close>, lines 1067 to 1357)\<close>

text \<open>
  The page of \<^verbatim>\<open>cvForm\<close>: the name and value of every control of the form (what
  \<^verbatim>\<open>new FormData(form)\<close> lists), \<^verbatim>\<open>style.display\<close> of the loading and results elements, the
  category written into the BMI element, the requests issued and the number pending.
\<close>

record cv_page =
  cv_entries :: "(string \<times> string) list"
  cv_loading_display :: string
  cv_results_display :: string
  cv_bmi_category :: "string option"
  cv_requests :: "(string \<times> jsnum) list list"
  cv_pending :: nat

text \<open>
  The request object of the \<^verbatim>\<open>submit\<close> listener (lines 1083 to 1089): every entry of the
  form, its value passed through \<^verbatim>\<open>parseInt\<close>.
\<close>

definition cv_data :: "(string \<times> string) list \<Rightarrow> (string \<times> jsnum) list" where
  "cv_data entries = map (\<lambda>(k, v). (k, parseInt v)) entries"

text \<open>The \<^verbatim>\<open>submit\<close> listener (lines 1075 to 1117) up to its \<^verbatim>\<open>await fetch\<close>.\<close>

definition cv_on_submit :: "cv_page \<Rightarrow> cv_page" where
  "cv_on_submit p =
     p\<lparr>cv_loading_display := ''flex'',
       cv_results_display := ''none'',
       cv_requests := cv_requests p @ [cv_data (cv_entries p)],
       cv_pending := Suc (cv_pending p)\<rparr>"

text \<open>A property of the request object; a missing one reads \<^verbatim>\<open>undefined\<close>, which is \<open>NaN\<close> in arithmetic.\<close>

definition property_of :: "(string \<times> jsnum) list \<Rightarrow> string \<Rightarrow> jsnum" where
  "property_of inputData k = (case map_of inputData k of None \<Rightarrow> NaN | Some x \<Rightarrow> x)"

datatype bmi_category = Underweight | NormalWeight | Overweight | Obese

text \<open>\<^verbatim>\<open>getBMICategory\<close> (lines 1251 to 1256).\<close>

definition getBMICategory :: "jsnum \<Rightarrow> bmi_category" where
  "getBMICategory bmi =
     (if js_lt bmi (lit (185 / 10)) then Underweight
      else if js_lt bmi (lit 25) then NormalWeight
      else if js_lt bmi (lit 30) then Overweight
      else Obese)"

definition category_text :: "bmi_category \<Rightarrow> string" where
  "category_text c =
     (case c of Underweight \<Rightarrow> ''Underweight'' | NormalWeight \<Rightarrow> ''Normal weight''
      | Overweight \<Rightarrow> ''Overweight'' | Obese \<Rightarrow> ''Obese'')"

text \<open>The BMI of \<^verbatim>\<open>displayResults\<close> (lines 1206 to 1210).\<close>

definition bmi_of :: "jsnum \<Rightarrow> jsnum \<Rightarrow> jsnum" where
  "bmi_of weight height_cm =
     (let height = js_div height_cm (lit 100)
      in js_div weight (js_mul height height))"

definition cv_bmi :: "(string \<times> jsnum) list \<Rightarrow> jsnum" where
  "cv_bmi inputData = bmi_of (property_of inputData ''weight'') (property_of inputData ''height'')"

definition cv_displayResults_bmi :: "(string \<times> jsnum) list \<Rightarrow> bmi_category" where
  "cv_displayResults_bmi inputData = getBMICategory (cv_bmi inputData)"

text \<open>What the claim calls BMI: the exact quotient of the weight by the squared height in metres.\<close>

definition exact_bmi :: "rat \<Rightarrow> rat \<Rightarrow> rat" where
  "exact_bmi weight_kg height_cm = weight_kg / ((height_cm / 100) * (height_cm / 100))"

definition bucket :: "rat \<Rightarrow> bmi_category" where
  "bucket b =
     (if b < 185 / 10 then Underweight else if b < 25 then NormalWeight
      else if b < 30 then Overweight else Obese)"

section \<open>Heart form (\<^verbatim>\<open>unnamed/part_001\<close>, lines 865 to 1315)\<close>

text \<open>
  The caption \<^verbatim>\<open>updateSubmitButton\<close> writes on the button: "Review Values & Submit",
  "Assess Heart Disease Risk" (each after its pictograph) or "Complete all fields to
  continue".
\<close>

datatype heart_caption = ReviewValues | AssessRisk | CompleteAllFields

record heart_button =
  hb_disabled :: bool
  hb_caption :: heart_caption
  hb_background :: string

text \<open>The inputs by id, the checked radio button of each group by name, and the button.\<close>

record heart_page =
  hp_fields :: dom
  hp_checked :: "string \<Rightarrow> string option"
  hp_submitBtn :: "heart_button option"

definition heart_formFields :: "string list" where
  "heart_formFields =
     [''age'', ''sex'', ''chest_pain_type'', ''resting_bp'', ''cholesterol'', ''fasting_bs'',
      ''rest_ecg'', ''max_heart_rate'', ''exercise_angina'', ''oldpeak'', ''slope'',
      ''major_vessels'', ''thal'']"

text \<open>\<^verbatim>\<open>getFieldValue\<close> (lines 875 to 882).\<close>

definition getFieldValue :: "heart_page \<Rightarrow> string \<Rightarrow> string" where
  "getFieldValue p fieldName =
     (case hp_fields p fieldName of
        Some field \<Rightarrow>
          if f_value field \<noteq> [] then f_value field
          else (case hp_checked p fieldName of None \<Rightarrow> [] | Some v \<Rightarrow> v)
      | None \<Rightarrow> (case hp_checked p fieldName of None \<Rightarrow> [] | Some v \<Rightarrow> v))"

text \<open>\<^verbatim>\<open>updateSubmitButton\<close> of the heart form (lines 1107 to 1135).\<close>

definition heart_updateSubmitButton :: "heart_page \<Rightarrow> heart_page" where
  "heart_updateSubmitButton p =
     (case hp_submitBtn p of
        None \<Rightarrow> p
      | Some b \<Rightarrow>
          (let allComplete = list_all (\<lambda>n. getFieldValue p n \<noteq> []) heart_formFields;
               hasBlockingErrors =
                 list_ex (\<lambda>n. case hp_fields p n of
                                 None \<Rightarrow> False
                               | Some field \<Rightarrow> classList_contains (f_classes field) ''blocking-invalid'')
                         heart_formFields
           in p\<lparr>hp_submitBtn := Some
                  (if hasBlockingErrors then
                     b\<lparr>hb_disabled := False, hb_caption := ReviewValues, hb_background := ''#ff9800''\<rparr>
                   else if allComplete then
                     b\<lparr>hb_disabled := False, hb_caption := AssessRisk, hb_background := []\<rparr>
                   else
                     b\<lparr>hb_disabled := False, hb_caption := CompleteAllFields, hb_background := ''#ccc''\<rparr>)\<rparr>))"

text \<open>A heart page with none of its fields filled in, and its button.\<close>

definition heart_page0 :: heart_page where
  "heart_page0 =
     \<lparr>hp_fields = (\<lambda>n. if n \<in> set [''age'', ''resting_bp'', ''cholesterol'', ''max_heart_rate'', ''oldpeak'']
                         then Some (field_of n []) else None),
      hp_checked = (\<lambda>n. None),
      hp_submitBtn = Some \<lparr>hb_disabled = False, hb_caption = CompleteAllFields, hb_background = []\<rparr>\<rparr>"

text \<open>
  \<open>in_bounds x lo hi\<close>: \<open>x\<close> is a number within \<open>[lo, hi]\<close>, both ends included. A schema
  entry is proper when its bounds are numbers.
\<close>

definition in_bounds :: "jsnum \<Rightarrow> jsnum \<Rightarrow> jsnum \<Rightarrow> bool" where
  "in_bounds x lo hi \<longleftrightarrow> js_le lo x \<and> js_le x hi"

definition proper_range :: "range \<Rightarrow> bool" where
  "proper_range r \<longleftrightarrow>
     r_min r \<noteq> NaN \<and> r_max r \<noteq> NaN
     \<and> (case r_normal r of None \<Rightarrow> True | Some (a, b) \<Rightarrow> a \<noteq> NaN \<and> b \<noteq> NaN)"

section \<open>Eye image upload (\<^verbatim>\<open>eye.js\<close>, class EyeDiseaseDetector)\<close>

text \<open>A \<^verbatim>\<open>File\<close> object: the three properties \<^verbatim>\<open>processFile\<close> and the preview read.\<close>

record jsfile =
  file_name :: string
  file_type :: string
  file_size :: nat

text \<open>
  The detector: its two fields (\<^verbatim>\<open>currentFile\<close>; \<^verbatim>\<open>currentResults\<close> is not touched by the
  upload path and is left out) and the properties of the DOM elements the upload path
  writes. \<^verbatim>\<open>displayImagePreview\<close> only starts a \<^verbatim>\<open>FileReader\<close>; the reads started and not
  yet delivered are \<open>pendingReads\<close>, and the preview elements change when \<^verbatim>\<open>onload\<close> fires.
\<close>

record detector =
  currentFile :: "jsfile option"
  previewImage_src :: string
  imageName_text :: string
  imageSize_text :: string
  fileInput_value :: string
  uploadArea_display :: string
  imagePreview_display :: string
  analyzeBtn_disabled :: bool
  errorMessage_text :: string
  errorCard_display :: string
  errorCard_fade_in :: bool
  resultsCard_display :: string
  resultsCard_slide_up :: bool
  pendingReads :: "jsfile list"

definition validTypes :: "string list" where
  "validTypes = [''image/jpeg'', ''image/jpg'', ''image/png'', ''image/gif'', ''image/bmp'']"

definition maxSize :: nat where
  "maxSize = 10 * 1024 * 1024"

definition hideResults :: "detector \<Rightarrow> detector" where
  "hideResults d = d\<lparr>resultsCard_display := ''none'', resultsCard_slide_up := False\<rparr>"

definition eye_showError :: "string \<Rightarrow> detector \<Rightarrow> detector" where
  "eye_showError message d =
     hideResults (d\<lparr>errorMessage_text := message, errorCard_display := ''block'',
                     errorCard_fade_in := True\<rparr>)"

definition hideError :: "detector \<Rightarrow> detector" where
  "hideError d = d\<lparr>errorCard_display := ''none'', errorCard_fade_in := False\<rparr>"

definition displayImagePreview :: "jsfile \<Rightarrow> detector \<Rightarrow> detector" where
  "displayImagePreview file d = d\<lparr>pendingReads := pendingReads d @ [file]\<rparr>"

definition processFile :: "jsfile \<Rightarrow> detector \<Rightarrow> detector" where
  "processFile file d =
     (if \<not> List.member validTypes (file_type file) then
        eye_showError ''Please select a valid image file (PNG, JPG, JPEG, GIF, BMP)'' d
      else if file_size file > maxSize then
        eye_showError ''File size must be less than 10MB'' d
      else
        hideError
          ((displayImagePreview file (d\<lparr>currentFile := Some file\<rparr>))
             \<lparr>analyzeBtn_disabled := False\<rparr>))"

text \<open>The upload state the claim speaks of: the file held, the preview, the analyze button.\<close>

definition upload_state ::
  "detector \<Rightarrow> jsfile option \<times> (string \<times> string \<times> string \<times> string \<times> string \<times> jsfile list) \<times> bool" where
  "upload_state d =
     (currentFile d,
      (previewImage_src d, imageName_text d, imageSize_text d, uploadArea_display d,
       imagePreview_display d, pendingReads d),
      analyzeBtn_disabled d)"

definition acceptable :: "jsfile \<Rightarrow> bool" where
  "acceptable file \<longleftrightarrow>
     file_type file \<in> {''image/jpeg'', ''image/jpg'', ''image/png'', ''image/gif'', ''image/bmp''}
     \<and> file_size file \<le> 10485760"

text \<open>The state of a freshly constructed detector with the upload area showing.\<close>

definition detector0 :: detector where
  "detector0 = \<lparr>currentFile = None, previewImage_src = [], imageName_text = [],
     imageSize_text = [], fileInput_value = [], uploadArea_display = ''block'',
     imagePreview_display = ''none'', analyzeBtn_disabled = True, errorMessage_text = [],
     errorCard_display = ''none'', errorCard_fade_in = False, resultsCard_display = ''none'',
     resultsCard_slide_up = False, pendingReads = []\<rparr>"

section \<open>Prediction form (\<^verbatim>\<open>unnamed/part_001\<close>, lines 1 to 246)\<close>

definition prediction_requiredFields :: "string list" where
  "prediction_requiredFields =
     [''age'', ''smoking'', ''yellow_fingers'', ''anxiety'', ''peer_pressure'',
      ''chronic_disease'', ''fatigue'', ''allergy'', ''wheezing'',
      ''alcohol_consuming'', ''coughing'', ''shortness_of_breath'',
      ''swallowing_difficulty'', ''chest_pain'']"

text \<open>
  The \<^verbatim>\<open>for\<close> loop of \<^verbatim>\<open>validateForm\<close> (lines 18 to 36) over the fields still to check, on the
  values of the inputs by id: the alert and focus of the first field that fails, or
  \<open>None\<close> when the loop runs to its end.
\<close>

fun prediction_check :: "(string \<Rightarrow> string) \<Rightarrow> string list \<Rightarrow> ui_effect list option" where
  "prediction_check inputs [] = None"
| "prediction_check inputs (field # rest) =
     (let v = parseInt (inputs field)
      in if isNaN v \<or> js_lt v (Num 0) \<or> js_gt v (Num 1) then
           (if field = ''age'' then
              (if isNaN v \<or> js_lt v (Num 1) \<or> js_gt v (Num 120) then
                 Some [Alert ''Please enter a valid age between 1 and 120'', Focus]
               else prediction_check inputs rest)
            else Some [Alert (''Please enter 0 or 1 for '' @ replace_first field ''_'' '' ''), Focus])
         else prediction_check inputs rest)"

text \<open>\<^verbatim>\<open>validateForm\<close> (lines 10 to 45), on the inputs and the checked gender radio button.\<close>

definition prediction_validateForm :: "(string \<Rightarrow> string) \<Rightarrow> string option \<Rightarrow> bool \<times> ui_effect list" where
  "prediction_validateForm inputs genderRadio =
     (case prediction_check inputs prediction_requiredFields of
        Some effects \<Rightarrow> (False, effects)
      | None \<Rightarrow>
          (case genderRadio of
             None \<Rightarrow> (False, [Alert ''Please select a gender''])
           | Some g \<Rightarrow> (True, [])))"

text \<open>
  The page: the value of every input by id (the script dereferences them unguarded), the
  value of the checked gender radio button, the result view, the loading element, the
  submit button, the alerts and focus calls made so far, the requests issued and the
  number of them pending.
\<close>

record prediction_page =
  pp_inputs :: "string \<Rightarrow> string"
  pp_gender :: "string option"
  pp_view :: result_view
  pp_loading_display :: string
  pp_submitButton :: button
  pp_effects :: "ui_effect list"
  pp_requests :: "(string \<times> jsnum) list list"
  pp_pending :: nat

text \<open>\<^verbatim>\<open>collectFormData\<close> (lines 97 to 117), for a checked radio button with value \<open>g\<close>.\<close>

definition prediction_collectFormData :: "(string \<Rightarrow> string) \<Rightarrow> string \<Rightarrow> (string \<times> jsnum) list" where
  "prediction_collectFormData inputs g =
     (''gender'', parseInt g) # map (\<lambda>n. (n, parseInt (inputs n))) prediction_requiredFields"

text \<open>The \<^verbatim>\<open>submit\<close> listener (lines 120 to 176) up to its \<^verbatim>\<open>await fetch\<close>.\<close>

definition prediction_on_submit :: "prediction_page \<Rightarrow> prediction_page" where
  "prediction_on_submit p =
     (case prediction_validateForm (pp_inputs p) (pp_gender p) of
        (ok, effects) \<Rightarrow>
          if \<not> ok then p\<lparr>pp_effects := pp_effects p @ effects\<rparr>
          else
            (case pp_gender p of
               None \<Rightarrow> p
             | Some g \<Rightarrow>
                 p\<lparr>pp_loading_display := ''block'',
                   pp_view := (pp_view p)\<lparr>rv_container := (rv_container (pp_view p))\<lparr>c_display := ''none''\<rparr>\<rparr>,
                   pp_submitButton := (pp_submitButton p)\<lparr>b_disabled := True, b_text := ''Analyzing...''\<rparr>,
                   pp_requests := pp_requests p @ [prediction_collectFormData (pp_inputs p) g],
                   pp_pending := Suc (pp_pending p)\<rparr>))"

section \<open>Notions of the claims and example pages\<close>

text \<open>The claim's count: the required fields whose tier is valid-abnormal or valid-normal.\<close>

definition valid_tier :: "dom \<Rightarrow> string \<Rightarrow> bool" where
  "valid_tier d fieldName =
     (case d fieldName of
        None \<Rightarrow> False
      | Some field \<Rightarrow> validity_of field = ValidAbnormal \<or> validity_of field = ValidNormal)"

text \<open>\<open>count / total * 100\<close>, as the script computes it.\<close>

definition percent_of :: "nat \<Rightarrow> nat \<Rightarrow> jsnum" where
  "percent_of c n = js_mul (js_div (Num (of_nat c)) (Num (of_nat n))) (Num 100)"

text \<open>
  A page is consistent when the class on every field is the one \<^verbatim>\<open>validateField\<close> leaves for
  its value: no class exactly on the empty fields.
\<close>

definition consistent :: "dom \<Rightarrow> bool" where
  "consistent d \<longleftrightarrow> (\<forall>m field. d m = Some field \<longrightarrow> (f_value field = [] \<longleftrightarrow> validity_of field = Empty))"

text \<open>Example pages: the age input alone, empty; then with 45 typed and validated.\<close>

definition dom_age_empty :: dom where
  "dom_age_empty = (\<lambda>n. if n = ''age'' then Some (field_of ''age'' []) else None)"

definition age_45_valid :: field where
  "age_45_valid = \<lparr>f_id = ''age'', f_name = [], f_value = ''45'', f_classes = [''valid''], f_label = None\<rparr>"

text \<open>A required field that blocks submission: missing from the page, empty, or marked invalid.\<close>

definition offending :: "dom \<Rightarrow> string \<Rightarrow> bool" where
  "offending d fieldName =
     (case d fieldName of
        None \<Rightarrow> True
      | Some field \<Rightarrow> f_value field = [] \<or> validity_of field = Invalid)"

definition covid_page0 :: covid_page where
  "covid_page0 =
     \<lparr>cp_fields = dom_age_empty,
      cp_submitBtn = Some \<lparr>b_disabled = False, b_text = ''Get COVID-19 Assessment''\<rparr>,
      cp_loadingSpinner = Some ''none'',
      cp_resultsSection = Some \<lparr>rs_display = ''none'', rs_classes = [''result-container''], rs_result = None\<rparr>,
      cp_progressBar = Some (Num 0),
      cp_error = None, cp_requests = [], cp_pending = 0\<rparr>"

text \<open>
  A required field fails validation at submit time: it is on the page and is empty, or
  \<^verbatim>\<open>validateField\<close> returns \<^verbatim>\<open>false\<close> for it. \<open>error_of\<close> is the line \<^verbatim>\<open>validateForm\<close> writes for
  such a field: its label and what is wrong.
\<close>

definition fails :: "(string \<Rightarrow> range option) \<Rightarrow> dom \<Rightarrow> string \<Rightarrow> bool" where
  "fails ranges d fieldName =
     (case d fieldName of
        None \<Rightarrow> False
      | Some field \<Rightarrow> f_value field = [] \<or> \<not> fst (validateField ranges field))"

definition error_of :: "(string \<Rightarrow> range option) \<Rightarrow> dom \<Rightarrow> string \<Rightarrow> string" where
  "error_of ranges d fieldName =
     getFieldLabel d fieldName @
       (case d fieldName of
          None \<Rightarrow> []
        | Some field \<Rightarrow> if f_value field = [] then '' is required'' else '' has an invalid value'')"

text \<open>Two states of the inputs that differ in class lists only.\<close>

definition same_but_classes :: "dom \<Rightarrow> dom \<Rightarrow> bool" where
  "same_but_classes d d' \<longleftrightarrow>
     (\<forall>m. case d m of
            None \<Rightarrow> d' m = None
          | Some f \<Rightarrow> (\<exists>cs. d' m = Some (f\<lparr>f_classes := cs\<rparr>)))"

text \<open>
  The prediction form: a field is acceptable when the integer read from it is 0 or 1 (age:
  1 to 120), offending when no integer is read or it is another one (age: negative or
  above 120); \<open>pred_alert\<close> is the alert for a field.
\<close>

definition pred_acceptable :: "(string \<Rightarrow> string) \<Rightarrow> string \<Rightarrow> bool" where
  "pred_acceptable inputs m =
     (case mathInt (inputs m) of
        None \<Rightarrow> False
      | Some k \<Rightarrow> if m = ''age'' then 1 \<le> k \<and> k \<le> 120 else k = 0 \<or> k = 1)"

definition pred_offending :: "(string \<Rightarrow> string) \<Rightarrow> string \<Rightarrow> bool" where
  "pred_offending inputs m =
     (case mathInt (inputs m) of
        None \<Rightarrow> True
      | Some k \<Rightarrow> if m = ''age'' then k < 0 \<or> 120 < k else k \<noteq> 0 \<and> k \<noteq> 1)"

definition pred_alert :: "string \<Rightarrow> string" where
  "pred_alert m =
     (if m = ''age'' then ''Please enter a valid age between 1 and 120''
      else ''Please enter 0 or 1 for '' @ replace_first m ''_'' '' '')"

text \<open>
  Example pages: the COVID-19 form with age 150 and an empty leukocytes input; the
  prediction form with an empty smoking input and 7 typed for anxiety.
\<close>

definition covid_page_age150 :: covid_page where
  "covid_page_age150 =
     covid_page0\<lparr>cp_fields :=
       (\<lambda>n. if n = ''age'' then
                Some \<lparr>f_id = ''age'', f_name = ''age'', f_value = ''150'', f_classes = [],
                      f_label = Some ''Age:''\<rparr>
              else if n = ''leukocytes'' then
                Some \<lparr>f_id = ''leukocytes'', f_name = ''leukocytes'', f_value = [], f_classes = [],
                      f_label = Some ''Leukocytes:''\<rparr>
              else None)\<rparr>"

definition prediction_page0 :: prediction_page where
  "prediction_page0 =
     \<lparr>pp_inputs = (\<lambda>n. if n = ''age'' then ''45'' else if n = ''smoking'' then []
                        else if n = ''anxiety'' then ''7'' else ''0''),
      pp_gender = Some ''1'',
      pp_view = view0,
      pp_loading_display = ''none'',
      pp_submitButton = \<lparr>b_disabled = False, b_text = ''Analyze Risk Factors''\<rparr>,
      pp_effects = [], pp_requests = [], pp_pending = 0\<rparr>"

text \<open>
  The state of a page with a submit control on which at most one request is pending, and
  on which the control is disabled while one is.
\<close>

definition single_flight :: "covid_page \<Rightarrow> bool" where
  "single_flight p \<longleftrightarrow>
     cp_pending p \<le> 1
     \<and> (case cp_submitBtn p of None \<Rightarrow> False | Some b \<Rightarrow> cp_pending p = 1 \<longrightarrow> b_disabled b)"

text \<open>Example pages: a filled CV form; the COVID-19 form with a valid age.\<close>

definition cv_page0 :: cv_page where
  "cv_page0 =
     \<lparr>cv_entries = [(''age'', ''50''), (''height'', ''175''), (''weight'', ''70'')],
      cv_loading_display = ''none'', cv_results_display = ''none'', cv_bmi_category = None,
      cv_requests = [], cv_pending = 0\<rparr>"

definition covid_page_age45 :: covid_page where
  "covid_page_age45 =
     covid_page0\<lparr>cp_fields := (\<lambda>n. if n = ''age'' then Some (field_of ''age'' ''45'') else None)\<rparr>"

section \<open>Theorems\<close>

subsection \<open>Numbers: rounding to a double\<close>

lemma pow2_powi: "pow2 k = 2 powi k"
proof (cases "0 \<le> k")
  case True
  then show ?thesis by (simp add: pow2_def power_int_def)
next
  case False
  then show ?thesis by (simp add: pow2_def power_int_def field_simps)
qed

lemma pow2_pos: "0 < pow2 k"
  by (simp add: pow2_powi)

lemma pow2_add: "pow2 (a + b) = pow2 a * pow2 b"
  by (simp add: pow2_powi power_int_add)

lemma pow2_mono: "a \<le> b \<Longrightarrow> pow2 a \<le> pow2 b"
  by (simp add: pow2_powi power_int_increasing)

lemma pow2_less_cancel: "pow2 a < pow2 b \<Longrightarrow> a < b"
  using pow2_mono [of b a] by (cases "a < b") auto

lemma pow2_nat: "pow2 (int n) = 2 ^ n"
  by (simp add: pow2_def)

lemma bitlen_rat_bounds:
  assumes "0 < (p::int)"
  shows "pow2 (bitlen p - 1) \<le> of_int p" and "(of_int p :: rat) < pow2 (bitlen p)"
proof -
  have b: "2 ^ nat (bitlen p - 1) \<le> p \<and> p < 2 ^ nat (bitlen p)"
    using bitlen_bounds [OF assms] .
  have pos: "0 < bitlen p" using assms bitlen_eq_zero_iff [of p] bitlen_nonneg [of p] by (cases "bitlen p = 0") auto
  from b have "(of_int (2 ^ nat (bitlen p - 1)) :: rat) \<le> of_int p" by (simp only: of_int_le_iff)
  then show "pow2 (bitlen p - 1) \<le> of_int p" using pos by (simp add: pow2_def)
  from b have "(of_int p :: rat) < of_int (2 ^ nat (bitlen p))" by (simp only: of_int_less_iff)
  then show "(of_int p :: rat) < pow2 (bitlen p)" using pos by (simp add: pow2_def)
qed

lemma binade_bounds:
  assumes "0 < x"
  shows "pow2 (binade x) \<le> x \<and> x < pow2 (binade x + 1)"
proof -
  obtain p q where pq: "quotient_of x = (p, q)" by (cases "quotient_of x")
  then have q: "0 < q" and x: "x = of_int p / of_int q"
    using quotient_of_denom_pos [of x p q] quotient_of_div [of x p q] by auto
  with assms have p: "0 < p" by (simp add: zero_less_divide_iff)
  define k where "k = bitlen p - bitlen q"
  note bp = bitlen_rat_bounds [OF p] and bq = bitlen_rat_bounds [OF q]
  have qpos: "(0::rat) < of_int q" using q by simp
  have up: "x < pow2 (k + 1)"
  proof -
    have "of_int p < pow2 (bitlen p)" by (rule bp)
    also have "pow2 (bitlen p) = pow2 (k + 1) * pow2 (bitlen q - 1)"
      using pow2_add [of "k + 1" "bitlen q - 1"] by (simp add: k_def)
    also have "\<dots> \<le> pow2 (k + 1) * of_int q"
      using bq(1) pow2_pos [of "k + 1"] by (simp add: mult_left_mono)
    finally show ?thesis using qpos by (simp add: x pos_divide_less_eq)
  qed
  have lo: "pow2 (k - 1) < x"
  proof -
    have "pow2 (k - 1) * of_int q < pow2 (k - 1) * pow2 (bitlen q)"
      using bq(2) pow2_pos [of "k - 1"] by (simp add: mult_strict_left_mono)
    also have "\<dots> = pow2 (bitlen p - 1)"
      using pow2_add [of "k - 1" "bitlen q"] by (simp add: k_def)
    also have "\<dots> \<le> of_int p" by (rule bp)
    finally show ?thesis using qpos by (simp add: x pos_less_divide_eq)
  qed
  have b: "binade x = (if pow2 k \<le> x then k else k - 1)"
    by (simp add: binade_def pq k_def Let_def)
  show ?thesis
  proof (cases "pow2 k \<le> x")
    case True
    with b up show ?thesis by simp
  next
    case False
    with b lo show ?thesis by (simp add: less_imp_le)
  qed
qed

lemma binade_unique:
  assumes "pow2 e \<le> x" "x < pow2 (e + 1)"
  shows "binade x = e"
proof -
  have "0 < x" using assms(1) pow2_pos [of e] by simp
  from binade_bounds [OF this] have b: "pow2 (binade x) \<le> x" "x < pow2 (binade x + 1)" by auto
  have "pow2 e < pow2 (binade x + 1)" using assms(1) b(2) by simp
  then have 1: "e < binade x + 1" by (rule pow2_less_cancel)
  have "pow2 (binade x) < pow2 (e + 1)" using assms(2) b(1) by simp
  then have 2: "binade x < e + 1" by (rule pow2_less_cancel)
  from 1 2 show ?thesis by simp
qed

lemma round_half_even_of_int: "round_half_even (of_int n) = n"
  by (simp add: round_half_even_def)

lemma round_half_even_ge: "of_int n \<le> x \<Longrightarrow> n \<le> round_half_even x"
proof -
  assume "of_int n \<le> x"
  then have "n \<le> \<lfloor>x\<rfloor>" by (simp add: le_floor_iff)
  then show ?thesis by (auto simp: round_half_even_def Let_def)
qed


lemma binade_ge: "pow2 e \<le> x \<Longrightarrow> e \<le> binade x"
proof -
  assume a: "pow2 e \<le> x"
  then have "0 < x" using pow2_pos [of e] by simp
  from binade_bounds [OF this] a have "pow2 e < pow2 (binade x + 1)" by simp
  then have "e < binade x + 1" by (rule pow2_less_cancel)
  then show ?thesis by simp
qed

lemma binade_less: "0 < x \<Longrightarrow> x < pow2 e \<Longrightarrow> binade x < e"
proof -
  assume "0 < x" and a: "x < pow2 e"
  from binade_bounds [OF \<open>0 < x\<close>] a have "pow2 (binade x) < pow2 e" by simp
  then show ?thesis by (rule pow2_less_cancel)
qed

lemma fl_pos:
  assumes "0 < x"
  shows "fl x =
     (let e = max (binade x) (- 1022); m = round_half_even (x / pow2 (e - 52))
      in if 1023 < e \<or> (e = 1023 \<and> m = 2 ^ 53) then PosInf else Num (of_int m * pow2 (e - 52)))"
  using assms by (auto simp: fl_def Let_def)

lemma fl_neg:
  assumes "x < 0"
  shows "fl x =
     (let e = max (binade (- x)) (- 1022); m = round_half_even (- x / pow2 (e - 52))
      in if 1023 < e \<or> (e = 1023 \<and> m = 2 ^ 53) then NegInf else Num (- (of_int m * pow2 (e - 52))))"
  using assms by (auto simp: fl_def Let_def)

text \<open>Rounding a number of magnitude at least 1 never moves it below its binade.\<close>

lemma round_scaled_ge:
  assumes "1 \<le> x"
  shows "pow2 (binade x) \<le> of_int (round_half_even (x / pow2 (binade x - 52))) * pow2 (binade x - 52)"
proof -
  have x: "0 < x" using assms by simp
  let ?e = "binade x"
  let ?u = "pow2 (?e - 52)"
  have u: "0 < ?u" by (rule pow2_pos)
  have split: "pow2 ?e = pow2 52 * ?u" using pow2_add [of 52 "?e - 52"] by simp
  have "pow2 52 * ?u \<le> x" using binade_bounds [OF x] split by simp
  then have "pow2 52 \<le> x / ?u" using u by (simp add: pos_le_divide_eq)
  moreover have "pow2 52 = of_int (2 ^ 52)" by (simp add: pow2_def)
  ultimately have "of_int (2 ^ 52) \<le> x / ?u" by simp
  then have "2 ^ 52 \<le> round_half_even (x / ?u)" by (rule round_half_even_ge)
  then have "(of_int (2 ^ 52) :: rat) \<le> of_int (round_half_even (x / ?u))"
    by (simp only: of_int_le_iff)
  then have "pow2 52 * ?u \<le> of_int (round_half_even (x / ?u)) * ?u"
    using u \<open>pow2 52 = of_int (2 ^ 52)\<close> by (simp add: mult_right_mono)
  with split show ?thesis by simp
qed

lemma fl_lower:
  assumes "1 \<le> x"
  shows "fl x = PosInf \<or> (\<exists>r. fl x = Num r \<and> pow2 (binade x) \<le> r)"
proof -
  have x: "0 < x" using assms by simp
  have "pow2 0 \<le> x" using assms by (simp add: pow2_def)
  then have "0 \<le> binade x" by (rule binade_ge)
  then have e: "max (binade x) (- 1022) = binade x" by simp
  show ?thesis
    using round_scaled_ge [OF assms] by (simp add: fl_pos [OF x] e Let_def)
qed

lemma fl_lower_neg:
  assumes "x \<le> - 1"
  shows "fl x = NegInf \<or> (\<exists>r. fl x = Num r \<and> r \<le> - pow2 (binade (- x)))"
proof -
  have x: "x < 0" and nx: "1 \<le> - x" using assms by simp_all
  have "pow2 0 \<le> - x" using nx by (simp add: pow2_def)
  then have "0 \<le> binade (- x)" by (rule binade_ge)
  then have e: "max (binade (- x)) (- 1022) = binade (- x)" by simp
  show ?thesis
    using round_scaled_ge [OF nx] by (simp add: fl_neg [OF x] e Let_def)
qed

text \<open>Integers of magnitude below \<open>2^53\<close> are doubles.\<close>

lemma fl_nat_exact:
  assumes "0 < n" "n < 2 ^ 53"
  shows "fl (of_int n) = Num (of_int n)" and "fl (- of_int n) = Num (- of_int n)"
proof -
  let ?x = "of_int n :: rat"
  have x: "0 < ?x" and x1: "1 \<le> ?x" using assms(1) by simp_all
  have "pow2 0 \<le> ?x" using x1 by (simp add: pow2_def)
  then have e0: "0 \<le> binade ?x" by (rule binade_ge)
  have "?x < of_int (2 ^ 53)" using assms(2) by (simp only: of_int_less_iff)
  then have "?x < pow2 53" by (simp add: pow2_def)
  then have e53: "binade ?x < 53" by (rule binade_less [OF x])
  define d where "d = nat (52 - binade ?x)"
  have u: "pow2 (binade ?x - 52) = 1 / 2 ^ d"
    using e53 by (simp add: pow2_def d_def)
  have q: "?x / pow2 (binade ?x - 52) = of_int (n * 2 ^ d)" by (simp add: u)
  have r: "round_half_even (?x / pow2 (binade ?x - 52)) = n * 2 ^ d"
    unfolding q by (rule round_half_even_of_int)
  have rescale: "of_int (n * 2 ^ d) * pow2 (binade ?x - 52) = ?x" by (simp add: u)
  have e: "max (binade ?x) (- 1022) = binade ?x" using e0 by simp
  show "fl ?x = Num ?x"
    using e53 rescale by (simp add: fl_pos [OF x] e Let_def r)
  have nx: "- ?x < 0" using x by simp
  show "fl (- ?x) = Num (- ?x)"
    using e53 rescale by (simp add: fl_neg [OF nx] e Let_def r)
qed

lemma fl_int_exact: "\<bar>n\<bar> < 2 ^ 53 \<Longrightarrow> fl (of_int n) = Num (of_int n)"
proof -
  assume a: "\<bar>n\<bar> < 2 ^ 53"
  consider "n = 0" | "0 < n" | "n < 0" by linarith
  then show ?thesis
  proof cases
    case 1
    then show ?thesis by (simp add: fl_def)
  next
    case 2
    with a fl_nat_exact(1) [of n] show ?thesis by simp
  next
    case 3
    with a fl_nat_exact(2) [of "- n"] show ?thesis by simp
  qed
qed

lemma fl_not_NaN: "fl x \<noteq> NaN"
  by (simp add: fl_def Let_def)

text \<open>
  The Number value of any integer, compared with an integer of magnitude below \<open>2^53\<close>,
  compares as the integers do.
\<close>

lemma fl_int_cases:
  fixes k :: int
  shows "(\<bar>k\<bar> < 2 ^ 53 \<and> fl (of_int k) = Num (of_int k))
    \<or> (2 ^ 53 \<le> k \<and> (fl (of_int k) = PosInf \<or> (\<exists>r. fl (of_int k) = Num r \<and> 2 ^ 53 \<le> r)))
    \<or> (k \<le> - (2 ^ 53) \<and> (fl (of_int k) = NegInf \<or> (\<exists>r. fl (of_int k) = Num r \<and> r \<le> - (2 ^ 53))))"
proof -
  consider "\<bar>k\<bar> < 2 ^ 53" | "2 ^ 53 \<le> k" | "k \<le> - (2 ^ 53)" by linarith
  then show ?thesis
  proof cases
    case 1
    then show ?thesis using fl_int_exact [of k] by simp
  next
    case 2
    let ?x = "of_int k :: rat"
    have "(of_int (2 ^ 53) :: rat) \<le> ?x" using 2 by (simp only: of_int_le_iff)
    then have big: "pow2 53 \<le> ?x" by (simp add: pow2_def)
    then have "1 \<le> ?x" by (simp add: pow2_def)
    from fl_lower [OF this] have "fl ?x = PosInf \<or> (\<exists>r. fl ?x = Num r \<and> pow2 (binade ?x) \<le> r)" .
    moreover have "pow2 53 \<le> pow2 (binade ?x)" using binade_ge [OF big] by (rule pow2_mono)
    then have "(2 ^ 53 :: rat) \<le> pow2 (binade ?x)" by (simp add: pow2_def)
    ultimately have "fl ?x = PosInf \<or> (\<exists>r. fl ?x = Num r \<and> 2 ^ 53 \<le> r)" by force
    with 2 show ?thesis by blast
  next
    case 3
    let ?x = "of_int k :: rat"
    have "?x \<le> of_int (- (2 ^ 53))" using 3 by (simp only: of_int_le_iff)
    then have big: "pow2 53 \<le> - ?x" by (simp add: pow2_def)
    then have "?x \<le> - 1" by (simp add: pow2_def)
    from fl_lower_neg [OF this]
    have "fl ?x = NegInf \<or> (\<exists>r. fl ?x = Num r \<and> r \<le> - pow2 (binade (- ?x)))" .
    moreover have "pow2 53 \<le> pow2 (binade (- ?x))" using binade_ge [OF big] by (rule pow2_mono)
    then have "(2 ^ 53 :: rat) \<le> pow2 (binade (- ?x))" by (simp add: pow2_def)
    ultimately have "fl ?x = NegInf \<or> (\<exists>r. fl ?x = Num r \<and> r \<le> - (2 ^ 53))" by force
    with 3 show ?thesis by blast
  qed
qed

lemma fl_int_compare:
  fixes k a :: int
  assumes "\<bar>a\<bar> < 2 ^ 53"
  shows "js_lt (fl (of_int k)) (Num (of_int a)) \<longleftrightarrow> k < a"
    and "js_lt (Num (of_int a)) (fl (of_int k)) \<longleftrightarrow> a < k"
    and "fl (of_int k) = Num (of_int a) \<longleftrightarrow> k = a"
proof -
  have a1: "(of_int a :: rat) < 2 ^ 53" and a2: "- (2 ^ 53) < (of_int a :: rat)"
  proof -
    from assms have "a < 2 ^ 53" and "- (2 ^ 53) < a" by simp_all
    then have "(of_int a :: rat) < of_int (2 ^ 53)" and "(of_int (- (2 ^ 53)) :: rat) < of_int a"
      by (simp_all only: of_int_less_iff)
    then show "(of_int a :: rat) < 2 ^ 53" and "- (2 ^ 53) < (of_int a :: rat)" by simp_all
  qed
  from fl_int_cases [of k]
  show "js_lt (fl (of_int k)) (Num (of_int a)) \<longleftrightarrow> k < a"
    using assms a1 a2 by (elim disjE conjE exE) auto
  from fl_int_cases [of k]
  show "js_lt (Num (of_int a)) (fl (of_int k)) \<longleftrightarrow> a < k"
    using assms a1 a2 by (elim disjE conjE exE) auto
  from fl_int_cases [of k]
  show "fl (of_int k) = Num (of_int a) \<longleftrightarrow> k = a"
    using assms a1 a2 by (elim disjE conjE exE) auto
qed

subsection \<open>The numeric validator\<close>

lemma classes_after_add:
  "c \<in> {''valid'', ''invalid'', ''abnormal''} \<Longrightarrow>
   validity_of (add_class c (field\<lparr>f_classes := classList_remove [''valid'', ''invalid'', ''abnormal''] cs\<rparr>))
     = (if c = ''invalid'' then Invalid else if c = ''abnormal'' then ValidAbnormal else ValidNormal)"
  by (auto simp: validity_of_def add_class_def classList_add_def classList_remove_def classList_contains_def)

lemma classes_after_remove:
  "validity_of (field\<lparr>f_classes := classList_remove [''valid'', ''invalid'', ''abnormal''] cs\<rparr>) = Empty"
  by (auto simp: validity_of_def classList_remove_def classList_contains_def)

lemma in_bounds_iff:
  "lo \<noteq> NaN \<Longrightarrow> hi \<noteq> NaN \<Longrightarrow>
   in_bounds x lo hi \<longleftrightarrow> \<not> isNaN x \<and> \<not> js_lt x lo \<and> \<not> js_gt x hi"
  by (auto simp: in_bounds_def js_le_def js_gt_def isNaN_def)

lemma ranges_age: "validationRanges ''age'' = Some \<lparr>r_min = Num 0, r_max = Num 120, r_normal = None\<rparr>"
  by code_simp

lemma ranges_leukocytes:
  "validationRanges ''leukocytes'' = Some \<lparr>r_min = Num (7 / 2), r_max = Num 15, r_normal = Some (Num 4, Num 11)\<rparr>"
  by code_simp

lemma parseFloat_examples:
  "parseFloat ''150'' = Num 150" "parseFloat ''45'' = Num 45" "parseFloat ''12'' = Num 12"
  "parseFloat [] = NaN" "parseFloat ''abc'' = NaN"
  by code_simp+

text \<open>
  Claim C1. For a field whose schema entry \<open>r\<close> has numbers as bounds, and its raw value
  with \<open>x\<close> the Number \<^verbatim>\<open>parseFloat\<close> reads from it: the empty string is classified empty
  (no class, \<^verbatim>\<open>false\<close> returned); a non-empty value is invalid exactly when it does not parse
  (\<open>x\<close> is \<open>NaN\<close>) or \<open>x < min\<close> or \<open>x > max\<close>; valid-abnormal exactly when \<open>x\<close> lies within
  \<open>[min, max]\<close> and outside the declared normal range; valid-normal exactly when it lies
  within \<open>[min, max]\<close> and inside the normal range, if one is declared. The boolean validator
  \<^verbatim>\<open>validateNumericInput\<close> accepts exactly the values within \<open>[min, max]\<close>.
\<close>

theorem validateField_tiers:
  "ranges (fieldName_of field) = Some r \<Longrightarrow> proper_range r \<Longrightarrow>
   x = parseFloat (f_value field) \<Longrightarrow> res = validateField ranges field \<Longrightarrow>
   (f_value field = [] \<longrightarrow> validity_of (snd res) = Empty \<and> \<not> fst res)
   \<and> (f_value field \<noteq> [] \<longrightarrow>
        (validity_of (snd res) = Invalid \<longleftrightarrow> isNaN x \<or> js_lt x (r_min r) \<or> js_gt x (r_max r))
      \<and> (validity_of (snd res) = ValidAbnormal \<longleftrightarrow>
           in_bounds x (r_min r) (r_max r)
           \<and> (\<exists>a b. r_normal r = Some (a, b) \<and> \<not> in_bounds x a b))
      \<and> (validity_of (snd res) = ValidNormal \<longleftrightarrow>
           in_bounds x (r_min r) (r_max r)
           \<and> (\<forall>a b. r_normal r = Some (a, b) \<longrightarrow> in_bounds x a b))
      \<and> validity_of (snd res) \<noteq> Empty
      \<and> (fst res \<longleftrightarrow> validity_of (snd res) \<noteq> Invalid))
   \<and> f_value (snd res) = f_value field
   \<and> (fst (validateNumericInput (f_value field) (r_min r) (r_max r) n)
        \<longleftrightarrow> in_bounds x (r_min r) (r_max r))"
proof -
  assume r: "ranges (fieldName_of field) = Some r" and pr: "proper_range r"
    and x: "x = parseFloat (f_value field)" and res: "res = validateField ranges field"
  have b: "in_bounds x (r_min r) (r_max r) \<longleftrightarrow> \<not> isNaN x \<and> \<not> js_lt x (r_min r) \<and> \<not> js_gt x (r_max r)"
    using pr by (intro in_bounds_iff) (simp_all add: proper_range_def)
  have nb: "in_bounds x a b \<longleftrightarrow> \<not> isNaN x \<and> \<not> js_lt x a \<and> \<not> js_gt x b" if "r_normal r = Some (a, b)" for a b
    using pr that by (intro in_bounds_iff) (simp_all add: proper_range_def)
  note r' = r
  have empty: "validity_of (snd res) = Empty \<and> \<not> fst res" if "f_value field = []"
    using that by (simp add: res validateField_def Let_def classes_after_remove)
  have keep: "f_value (snd res) = f_value field"
    by (auto simp: res validateField_def Let_def add_class_def split: option.splits)
  have num: "fst (validateNumericInput (f_value field) (r_min r) (r_max r) n) \<longleftrightarrow> in_bounds x (r_min r) (r_max r)"
    using b unfolding x by (auto simp: validateNumericInput_def Let_def)
  have tiers: "(validity_of (snd res) = Invalid \<longleftrightarrow> isNaN x \<or> js_lt x (r_min r) \<or> js_gt x (r_max r))
      \<and> (validity_of (snd res) = ValidAbnormal \<longleftrightarrow>
           in_bounds x (r_min r) (r_max r)
           \<and> (\<exists>a b. r_normal r = Some (a, b) \<and> \<not> in_bounds x a b))
      \<and> (validity_of (snd res) = ValidNormal \<longleftrightarrow>
           in_bounds x (r_min r) (r_max r)
           \<and> (\<forall>a b. r_normal r = Some (a, b) \<longrightarrow> in_bounds x a b))
      \<and> validity_of (snd res) \<noteq> Empty
      \<and> (fst res \<longleftrightarrow> validity_of (snd res) \<noteq> Invalid)" if ne: "f_value field \<noteq> []"
  proof (cases "isNaN x \<or> js_lt x (r_min r) \<or> js_gt x (r_max r)")
    case True
    then have "res = (False, add_class ''invalid'' (field\<lparr>f_classes :=
                     classList_remove [''valid'', ''invalid'', ''abnormal''] (f_classes field)\<rparr>))"
      using ne r' by (auto simp: res validateField_def Let_def x)
    then show ?thesis using True b by (auto simp: classes_after_add)
  next
    case False
    show ?thesis
    proof (cases "r_normal r")
      case None
      then have "res = (True, add_class ''valid'' (field\<lparr>f_classes :=
                     classList_remove [''valid'', ''invalid'', ''abnormal''] (f_classes field)\<rparr>))"
        using ne r' False by (auto simp: res validateField_def Let_def x)
      then show ?thesis using False b None by (auto simp: classes_after_add)
    next
      case (Some ab)
      obtain a b' where ab: "ab = (a, b')" by (cases ab)
      show ?thesis
      proof (cases "js_lt x a \<or> js_gt x b'")
        case True
        then have "res = (True, add_class ''abnormal'' (field\<lparr>f_classes :=
                     classList_remove [''valid'', ''invalid'', ''abnormal''] (f_classes field)\<rparr>))"
          using ne r' False Some ab by (auto simp: res validateField_def Let_def x)
        then show ?thesis using False True b nb [of a b'] Some ab by (auto simp: classes_after_add)
      next
        case inside: False
        then have "res = (True, add_class ''valid'' (field\<lparr>f_classes :=
                     classList_remove [''valid'', ''invalid'', ''abnormal''] (f_classes field)\<rparr>))"
          using ne r' False Some ab by (auto simp: res validateField_def Let_def x)
        then show ?thesis using False inside b nb [of a b'] Some ab by (auto simp: classes_after_add)
      qed
    qed
  qed
  from empty keep num tiers show ?thesis by blast
qed
theorem validateField_tiers_witness:
  "validity_of (snd (validateField validationRanges (field_of ''age'' ''150''))) = Invalid
   \<and> \<not> fst (validateField validationRanges (field_of ''age'' ''150''))
   \<and> validity_of (snd (validateField validationRanges (field_of ''age'' ''abc''))) = Invalid
   \<and> validity_of (snd (validateField validationRanges (field_of ''age'' ''45''))) = ValidNormal
   \<and> fst (validateField validationRanges (field_of ''age'' ''45''))
   \<and> validity_of (snd (validateField validationRanges (field_of ''leukocytes'' ''12''))) = ValidAbnormal
   \<and> fst (validateField validationRanges (field_of ''leukocytes'' ''12''))
   \<and> validity_of (snd (validateField validationRanges (field_of ''age'' []))) = Empty
   \<and> \<not> fst (validateNumericInput ''150'' (Num 0) (Num 120) ''Age'')"
proof -
  have n: "fieldName_of (field_of i v) = i" for i v
    by (simp add: fieldName_of_def field_of_def)
  have p1: "proper_range \<lparr>r_min = Num 0, r_max = Num 120, r_normal = None\<rparr>"
    and p2: "proper_range \<lparr>r_min = Num (7 / 2), r_max = Num 15, r_normal = Some (Num 4, Num 11)\<rparr>"
    by (simp_all add: proper_range_def)
  have v: "f_value (field_of i v) = v" for i v
    by (simp add: field_of_def)
  have a: "validationRanges (fieldName_of (field_of ''age'' v)) =
      Some \<lparr>r_min = Num 0, r_max = Num 120, r_normal = None\<rparr>" for v
    by (simp add: n ranges_age)
  have l: "validationRanges (fieldName_of (field_of ''leukocytes'' v)) =
      Some \<lparr>r_min = Num (7 / 2), r_max = Num 15, r_normal = Some (Num 4, Num 11)\<rparr>" for v
    by (simp add: n ranges_leukocytes)
  note t = validateField_tiers [where ranges = validationRanges and n = "''Age''"]
  from t [where field = "field_of ''age'' ''150''", OF a p1 refl refl]
    t [where field = "field_of ''age'' ''abc''", OF a p1 refl refl]
    t [where field = "field_of ''age'' ''45''", OF a p1 refl refl]
    t [where field = "field_of ''age'' []", OF a p1 refl refl]
    t [where field = "field_of ''leukocytes'' ''12''", OF l p2 refl refl]
  show ?thesis
    by (simp add: v parseFloat_examples in_bounds_def js_le_def js_gt_def isNaN_def)
qed

subsection \<open>The binary validator\<close>

lemma parseInt_examples:
  "parseInt ''0'' = Num 0" "parseInt ''1'' = Num 1" "parseInt ''2'' = Num 2"
  "parseInt [] = NaN" "parseInt ''abc'' = NaN" "parseInt ''01'' = Num 1"
  "parseInt '' 1'' = Num 1" "parseInt ''+1'' = Num 1" "parseInt ''1.5'' = Num 1"
  "parseInt ''1abc'' = Num 1"
  by code_simp+

lemma parseFloat_binary_examples:
  "parseFloat ''0'' = Num 0" "parseFloat ''1'' = Num 1" "parseFloat ''2'' = Num 2"
  "parseFloat ''1.5'' = Num (3 / 2)"
  by code_simp+

lemma parseInt_binary_iff:
  "parseInt v = Num 0 \<or> parseInt v = Num 1 \<longleftrightarrow> mathInt v = Some 0 \<or> mathInt v = Some 1"
proof (cases "mathInt v")
  case None
  then show ?thesis by (simp add: parseInt_def)
next
  case (Some k)
  have "fl (of_int k) = Num 0 \<longleftrightarrow> k = 0" using fl_int_compare(3) [of 0 k] by simp
  moreover have "fl (of_int k) = Num 1 \<longleftrightarrow> k = 1" using fl_int_compare(3) [of 1 k] by simp
  ultimately show ?thesis using Some by (simp add: parseInt_def)
qed

text \<open>
  Claim C5, as amended. \<^verbatim>\<open>validateBinaryInput\<close> accepts "0" and "1", and accepts a string
  only if the integer \<^verbatim>\<open>parseInt\<close> reads at its start is 0 or 1; every other string (the
  empty string, "2" and "abc" among them) is rejected with the alert. A string that
  spells 0 or 1 differently, such as "01", is accepted as well. The real-time check of
  \<^verbatim>\<open>addInputValidation\<close> colours "0" and "1" green and the empty string, "2" and "abc" red.
\<close>

theorem validateBinaryInput_accepts:
  "fst (validateBinaryInput ''0'' n) \<and> fst (validateBinaryInput ''1'' n)
   \<and> (fst (validateBinaryInput v n) \<longrightarrow> mathInt v = Some 0 \<or> mathInt v = Some 1)
   \<and> (mathInt v \<noteq> Some 0 \<and> mathInt v \<noteq> Some 1 \<longrightarrow>
        validateBinaryInput v n = (False, [Alert (''Please enter 0 or 1 for '' @ n), Focus]))
   \<and> \<not> fst (validateBinaryInput [] n) \<and> \<not> fst (validateBinaryInput ''2'' n)
   \<and> \<not> fst (validateBinaryInput ''abc'' n)
   \<and> fst (validateBinaryInput ''01'' n)
   \<and> inputValidation_borderColor ''0'' lo hi True = ''#2ecc71''
   \<and> inputValidation_borderColor ''1'' lo hi True = ''#2ecc71''
   \<and> inputValidation_borderColor [] lo hi True = ''#e74c3c''
   \<and> inputValidation_borderColor ''2'' lo hi True = ''#e74c3c''
   \<and> inputValidation_borderColor ''abc'' lo hi True = ''#e74c3c''"
proof -
  have ok: "fst (validateBinaryInput v n) \<longleftrightarrow> parseInt v = Num 0 \<or> parseInt v = Num 1" for v
    by (auto simp: validateBinaryInput_def Let_def isNaN_def)
  have rej: "validateBinaryInput v n = (False, [Alert (''Please enter 0 or 1 for '' @ n), Focus])"
    if "\<not> (parseInt v = Num 0 \<or> parseInt v = Num 1)" for v
    using that by (auto simp: validateBinaryInput_def Let_def isNaN_def)
  have col: "inputValidation_borderColor v lo hi True =
      (if parseFloat v = Num 0 \<or> parseFloat v = Num 1 then ''#2ecc71'' else ''#e74c3c'')" for v
    by (auto simp: inputValidation_borderColor_def Let_def isNaN_def)
  show ?thesis
    using rej [of v] parseInt_binary_iff [of v]
    by (simp add: ok col parseInt_examples parseFloat_examples parseFloat_binary_examples)
qed

theorem validateBinaryInput_accepts_witness:
  "fst (validateBinaryInput ''1'' ''Smoking'') \<and> mathInt ''1'' = Some 1
   \<and> mathInt ''7'' = Some 7
   \<and> validateBinaryInput ''7'' ''Smoking'' = (False, [Alert ''Please enter 0 or 1 for Smoking'', Focus])"
proof -
  have m: "mathInt ''1'' = Some 1" "mathInt ''7'' = Some 7" by code_simp+
  from m validateBinaryInput_accepts [of "''Smoking''" "''1''" "Num 0" "Num 1"]
    validateBinaryInput_accepts [of "''Smoking''" "''7''" "Num 0" "Num 1"]
  show ?thesis by simp
qed

text \<open>
  The claim as stated fails: strings other than "0" and "1" are accepted, since the
  validator compares the number read by \<^verbatim>\<open>parseInt\<close> and not the string.
\<close>

theorem validateBinaryInput_spelling_counterexample:
  "fst (validateBinaryInput ''01'' ''Smoking'') \<and> fst (validateBinaryInput '' 1'' ''Smoking'')
   \<and> fst (validateBinaryInput ''1.5'' ''Smoking'') \<and> fst (validateBinaryInput ''1abc'' ''Smoking'')"
  by (simp add: validateBinaryInput_def Let_def isNaN_def parseInt_examples)

subsection \<open>Strings\<close>

lemma startsWith_iff: "startsWith s t \<longleftrightarrow> (\<exists>v. s = t @ v)"
  by (induction s t rule: startsWith.induct) auto

lemma includes_str_iff: "includes_str s t \<longleftrightarrow> occurs_in t s"
proof (induction s)
  case Nil
  show ?case by (auto simp: occurs_in_def)
next
  case (Cons a s)
  have "occurs_in t (a # s) \<longleftrightarrow> (\<exists>v. a # s = t @ v) \<or> occurs_in t s"
  proof
    assume "occurs_in t (a # s)"
    then obtain u v where uv: "a # s = u @ t @ v" by (auto simp: occurs_in_def)
    show "(\<exists>v. a # s = t @ v) \<or> occurs_in t s"
    proof (cases u)
      case Nil
      with uv show ?thesis by auto
    next
      case (Cons b u')
      with uv have "s = u' @ t @ v" by simp
      then show ?thesis by (auto simp: occurs_in_def)
    qed
  next
    assume "(\<exists>v. a # s = t @ v) \<or> occurs_in t s"
    then show "occurs_in t (a # s)"
    proof
      assume "\<exists>v. a # s = t @ v"
      then obtain v where "a # s = [] @ t @ v" by auto
      then show ?thesis unfolding occurs_in_def by blast
    next
      assume "occurs_in t s"
      then obtain u v where "s = u @ t @ v" by (auto simp: occurs_in_def)
      then have "a # s = (a # u) @ t @ v" by simp
      then show ?thesis unfolding occurs_in_def by blast
    qed
  qed
  with Cons show ?case by (simp add: startsWith_iff)
qed

lemma occurs_in_map_lower:
  "occurs_in (map lower_char t) (map lower_char s) \<longleftrightarrow>
     (\<exists>u w v. s = u @ w @ v \<and> map lower_char w = map lower_char t)"
proof
  assume "occurs_in (map lower_char t) (map lower_char s)"
  then obtain u' v' where "map lower_char s = u' @ map lower_char t @ v'"
    by (auto simp: occurs_in_def)
  then obtain us vs where s: "s = us @ vs" and "map lower_char t @ v' = map lower_char vs"
    by (auto simp: map_eq_append_conv)
  then obtain ws zs where "vs = ws @ zs" and "map lower_char t = map lower_char ws"
    by (auto simp: append_eq_map_conv)
  with s have "s = us @ ws @ zs \<and> map lower_char ws = map lower_char t" by simp
  then show "\<exists>u w v. s = u @ w @ v \<and> map lower_char w = map lower_char t" by blast
next
  assume "\<exists>u w v. s = u @ w @ v \<and> map lower_char w = map lower_char t"
  then obtain u w v where "s = u @ w @ v" and "map lower_char w = map lower_char t" by blast
  then have "map lower_char s = map lower_char u @ map lower_char t @ map lower_char v" by simp
  then show "occurs_in (map lower_char t) (map lower_char s)" unfolding occurs_in_def by blast
qed

lemma includes_lower_iff:
  "includes_str (toLowerCase s) (toLowerCase t) \<longleftrightarrow> occurs_ci t s"
  by (simp add: includes_str_iff occurs_ci_def toLowerCase_def occurs_in_map_lower)

lemma lower_fixed: "toLowerCase ''high risk'' = ''high risk''" "toLowerCase ''positive'' = ''positive''"
  "toLowerCase ''model'' = ''model''"
  by (simp_all add: toLowerCase_def lower_char_def)


subsection \<open>Risk tier of a prediction\<close>

text \<open>
  Claim C6, as amended. The shared renderer \<^verbatim>\<open>showResult\<close> puts a prediction in the high
  risk tier exactly when a substring of it equals "high risk" or "positive" up to letter
  case, and styles the container with the positive class then and the negative class
  otherwise. The renderer of \<^verbatim>\<open>cardiovascular.js\<close> compares case-sensitively with
  "HIGH RISK" only. "HIGH RISK" is high risk and "Low Risk" and "negative" are low risk
  in both; "High Risk" and "positive" are high risk in the shared renderer.
\<close>

theorem risk_tier_classification:
  "(isHighRisk p \<longleftrightarrow> occurs_ci ''high risk'' p \<or> occurs_ci ''positive'' p)
   \<and> (cardio_isHighRisk p \<longleftrightarrow> occurs_in ''HIGH RISK'' p)
   \<and> (resultContainer els = Some c \<and> resultText els \<noteq> None \<and> resultDescription els \<noteq> None \<longrightarrow>
        map_option c_className (resultContainer (showResult els \<lparr>prediction = p, probability = pr, other_conditions = oc\<rparr> pos neg))
          = Some (''result-container '' @ (if occurs_ci ''high risk'' p \<or> occurs_ci ''positive'' p then pos else neg)))
   \<and> cardio_displayResults_classes \<lparr>prediction = p, probability = pr, other_conditions = oc\<rparr>
        = [''result-container'', if occurs_in ''HIGH RISK'' p then ''high-risk'' else ''low-risk'', ''show'']
   \<and> isHighRisk ''High Risk'' \<and> isHighRisk ''HIGH RISK'' \<and> isHighRisk ''positive''
   \<and> \<not> isHighRisk ''Low Risk'' \<and> \<not> isHighRisk ''negative''
   \<and> cardio_isHighRisk ''HIGH RISK''
   \<and> \<not> cardio_isHighRisk ''Low Risk'' \<and> \<not> cardio_isHighRisk ''negative''"
proof -
  have a: "isHighRisk p \<longleftrightarrow> occurs_ci ''high risk'' p \<or> occurs_ci ''positive'' p"
    using includes_lower_iff [of p "''high risk''"] includes_lower_iff [of p "''positive''"]
    by (simp add: isHighRisk_def lower_fixed)
  have b: "cardio_isHighRisk p \<longleftrightarrow> occurs_in ''HIGH RISK'' p"
    by (simp add: cardio_isHighRisk_def includes_str_iff)
  have c: "map_option c_className (resultContainer (showResult els \<lparr>prediction = p, probability = pr, other_conditions = oc\<rparr> pos neg))
          = Some (''result-container '' @ (if occurs_ci ''high risk'' p \<or> occurs_ci ''positive'' p then pos else neg))"
    if "resultContainer els = Some c \<and> resultText els \<noteq> None \<and> resultDescription els \<noteq> None"
    using that a by (auto simp: showResult_def)
  have d: "cardio_displayResults_classes \<lparr>prediction = p, probability = pr, other_conditions = oc\<rparr>
        = [''result-container'', if occurs_in ''HIGH RISK'' p then ''high-risk'' else ''low-risk'', ''show'']"
    using b by (simp add: cardio_displayResults_classes_def)
  have e: "isHighRisk ''High Risk''" "isHighRisk ''HIGH RISK''" "isHighRisk ''positive''"
    "\<not> isHighRisk ''Low Risk''" "\<not> isHighRisk ''negative''"
    by code_simp+
  have f: "cardio_isHighRisk ''HIGH RISK''"
    "\<not> cardio_isHighRisk ''Low Risk''" "\<not> cardio_isHighRisk ''negative''"
    by (simp_all add: cardio_isHighRisk_def)
  from a b c d e f show ?thesis by blast
qed

theorem risk_tier_classification_witness:
  "map_option c_className (resultContainer (showResult els0
      \<lparr>prediction = ''High Risk'', probability = None, other_conditions = None\<rparr>
      ''result-positive'' ''result-negative'')) = Some ''result-container result-positive''
   \<and> map_option c_className (resultContainer (showResult els0
      \<lparr>prediction = ''Low Risk'', probability = None, other_conditions = None\<rparr>
      ''result-positive'' ''result-negative'')) = Some ''result-container result-negative''"
proof -
  have p: "resultContainer els0 = Some \<lparr>c_display = ''none'', c_className = ''result-container''\<rparr>
      \<and> resultText els0 \<noteq> None \<and> resultDescription els0 \<noteq> None"
    by (simp add: els0_def)
  have ci: "occurs_ci ''high risk'' ''High Risk''" "\<not> occurs_ci ''high risk'' ''Low Risk''"
    "\<not> occurs_ci ''positive'' ''Low Risk''"
    unfolding includes_lower_iff [symmetric] by code_simp+
  from p ci
    risk_tier_classification [where p = "''High Risk''" and els = els0 and pr = None and oc = None
      and pos = "''result-positive''" and neg = "''result-negative''"]
    risk_tier_classification [where p = "''Low Risk''" and els = els0 and pr = None and oc = None
      and pos = "''result-positive''" and neg = "''result-negative''"]
  show ?thesis by simp
qed

text \<open>
  The claim as stated fails in the cardiovascular form: "High Risk" and "positive" are
  rendered as low risk there.
\<close>

theorem cardio_mixed_case_counterexample:
  "cardio_isHighRisk ''High Risk'' = False \<and> cardio_isHighRisk ''positive'' = False
   \<and> cardio_displayResults_heading \<lparr>prediction = ''High Risk'', probability = None, other_conditions = None\<rparr>
       = ''LOW RISK of Heart Disease''"
  by (simp add: cardio_isHighRisk_def cardio_displayResults_heading_def)

subsection \<open>Error messages\<close>

text \<open>
  Claim C9, as amended. The shared \<^verbatim>\<open>showError\<close> chooses the text it displays in this
  order: an empty message gives the default sentence; a message containing "fetch" the
  connectivity sentence; else one containing "JSON" the invalid-response sentence; else
  one containing "model" in any letter case the service-unavailable sentence; every other
  message is displayed as it is. The prediction form's catch branch has the first two
  classes only, its own default sentence, and displays every other message as it is.
\<close>

theorem showError_classification:
  "(resultContainer els \<noteq> None \<and> resultText els \<noteq> None \<and> resultDescription els \<noteq> None \<longrightarrow>
      resultText (showError els m cls) = Some ''Error Occurred''
      \<and> resultDescription (showError els m cls) =
          Some (if m = [] then ''Please try again or check your connection.''
                else if occurs_in ''fetch'' m then
                  ''Unable to connect to server. Please check your internet connection.''
                else if occurs_in ''JSON'' m then
                  ''Server returned invalid response. Please try again.''
                else if occurs_ci ''model'' m then
                  ''Prediction service is currently unavailable. Please try again later.''
                else m))
   \<and> rv_text (prediction_showError v (prediction_catch_message m)) = ''Error occurred''
   \<and> rv_description (prediction_showError v (prediction_catch_message m)) =
         (if occurs_in ''fetch'' m then
            ''Unable to connect to server. Please check your internet connection.''
          else if occurs_in ''JSON'' m then
            ''Server returned invalid response. Please try again.''
          else if m = [] then ''Unable to process prediction. Please try again.''
          else m)"
proof -
  have ci: "occurs_in ''model'' (toLowerCase m) \<longleftrightarrow> occurs_ci ''model'' m"
    using includes_lower_iff [of m "''model''"] by (simp add: lower_fixed includes_str_iff)
  have fm: "friendlyMessage m =
      (if m = [] then ''Please try again or check your connection.''
       else if occurs_in ''fetch'' m then
         ''Unable to connect to server. Please check your internet connection.''
       else if occurs_in ''JSON'' m then
         ''Server returned invalid response. Please try again.''
       else if occurs_ci ''model'' m then
         ''Prediction service is currently unavailable. Please try again later.''
       else m)"
    by (simp add: friendlyMessage_def includes_str_iff ci)
  have a: "resultText (showError els m cls) = Some ''Error Occurred''
      \<and> resultDescription (showError els m cls) = Some (friendlyMessage m)"
    if "resultContainer els \<noteq> None \<and> resultText els \<noteq> None \<and> resultDescription els \<noteq> None"
    using that by (auto simp: showError_def)
  have b: "rv_text (prediction_showError v (prediction_catch_message m)) = ''Error occurred''"
    by (simp add: prediction_showError_def)
  have c: "rv_description (prediction_showError v (prediction_catch_message m)) =
         (if occurs_in ''fetch'' m then
            ''Unable to connect to server. Please check your internet connection.''
          else if occurs_in ''JSON'' m then
            ''Server returned invalid response. Please try again.''
          else if m = [] then ''Unable to process prediction. Please try again.''
          else m)"
    by (simp add: prediction_showError_def prediction_catch_message_def includes_str_iff)
  from a b c fm show ?thesis by simp
qed

theorem showError_classification_witness:
  "resultDescription (showError els0 ''Failed to fetch'' ''result-positive'')
     = Some ''Unable to connect to server. Please check your internet connection.''
   \<and> resultDescription (showError els0 ''Unexpected token < in JSON at position 0'' ''result-positive'')
     = Some ''Server returned invalid response. Please try again.''
   \<and> resultDescription (showError els0 ''Model not loaded'' ''result-positive'')
     = Some ''Prediction service is currently unavailable. Please try again later.''
   \<and> resultDescription (showError els0 ''Missing field: age'' ''result-positive'')
     = Some ''Missing field: age''
   \<and> rv_description (prediction_showError view0 (prediction_catch_message ''Model not loaded''))
     = ''Model not loaded''"
proof -
  have p: "resultContainer els0 \<noteq> None \<and> resultText els0 \<noteq> None \<and> resultDescription els0 \<noteq> None"
    by (simp add: els0_def)
  have ci: "occurs_ci ''model'' ''Model not loaded''" "\<not> occurs_ci ''model'' ''Missing field: age''"
    unfolding includes_lower_iff [symmetric] by code_simp+
  from p ci
    showError_classification [of els0 "''Failed to fetch''" "''result-positive''" view0]
    showError_classification [of els0 "''Unexpected token < in JSON at position 0''" "''result-positive''" view0]
    showError_classification [of els0 "''Model not loaded''" "''result-positive''" view0]
    showError_classification [of els0 "''Missing field: age''" "''result-positive''" view0]
  show ?thesis
    unfolding includes_str_iff [symmetric] by simp
qed

text \<open>
  The claim as stated fails: a message outside the three classes, such as the one
  \<^verbatim>\<open>makeAPICall\<close> builds from the response status, reaches the user unchanged.
\<close>

theorem showError_raw_text_counterexample:
  "resultDescription (showError els0 ''HTTP 500: INTERNAL SERVER ERROR'' ''result-positive'')
     = Some ''HTTP 500: INTERNAL SERVER ERROR''
   \<and> rv_description (prediction_showError view0 (prediction_catch_message ''HTTP 500: INTERNAL SERVER ERROR''))
     = ''HTTP 500: INTERNAL SERVER ERROR''"
  by code_simp

subsection \<open>Eye image upload\<close>

lemma acceptable_iff: "acceptable file \<longleftrightarrow> List.member validTypes (file_type file) \<and> \<not> file_size file > maxSize"
  by (auto simp: acceptable_def validTypes_def maxSize_def)

text \<open>
  Claim C10. \<^verbatim>\<open>processFile\<close> accepts a file exactly when its MIME type is one of the five
  listed image types and its size is at most \<open>10 * 1024 * 1024 = 10485760\<close> bytes. An
  accepted file becomes \<open>currentFile\<close>, its preview read is started, the analyze button
  is enabled and the error card is hidden. A rejected file shows the error card and
  leaves \<open>currentFile\<close>, the preview and the analyze button's disabled state as they were.
\<close>

theorem processFile_accepts_iff:
  "(acceptable file \<longrightarrow>
      currentFile (processFile file d) = Some file
      \<and> pendingReads (processFile file d) = pendingReads d @ [file]
      \<and> \<not> analyzeBtn_disabled (processFile file d)
      \<and> errorCard_display (processFile file d) = ''none'')
   \<and> (\<not> acceptable file \<longrightarrow>
      upload_state (processFile file d) = upload_state d
      \<and> errorCard_display (processFile file d) = ''block''
      \<and> errorMessage_text (processFile file d) \<in>
          {''Please select a valid image file (PNG, JPG, JPEG, GIF, BMP)'',
           ''File size must be less than 10MB''})
   \<and> (errorCard_display (processFile file d) = ''none'' \<longleftrightarrow> acceptable file)
   \<and> (file_size file = 10485760 \<and> file_type file = ''image/png'' \<longrightarrow> acceptable file)"
proof -
  have acc: "currentFile (processFile file d) = Some file
      \<and> pendingReads (processFile file d) = pendingReads d @ [file]
      \<and> \<not> analyzeBtn_disabled (processFile file d)
      \<and> errorCard_display (processFile file d) = ''none''" if "acceptable file"
    using that unfolding acceptable_iff
    by (simp add: processFile_def hideError_def displayImagePreview_def)
  have rej: "upload_state (processFile file d) = upload_state d
      \<and> errorCard_display (processFile file d) = ''block''
      \<and> errorMessage_text (processFile file d) \<in>
          {''Please select a valid image file (PNG, JPG, JPEG, GIF, BMP)'',
           ''File size must be less than 10MB''}" if "\<not> acceptable file"
    using that unfolding acceptable_iff
    by (auto simp: processFile_def eye_showError_def hideResults_def upload_state_def)
  have edge: "acceptable file" if "file_size file = 10485760 \<and> file_type file = ''image/png''"
    using that by (simp add: acceptable_def)
  from acc rej edge show ?thesis by (cases "acceptable file") auto
qed

theorem processFile_accepts_iff_witness:
  "acceptable \<lparr>file_name = ''scan.png'', file_type = ''image/png'', file_size = 10485760\<rparr>
   \<and> currentFile (processFile \<lparr>file_name = ''scan.png'', file_type = ''image/png'', file_size = 10485760\<rparr> detector0)
       = Some \<lparr>file_name = ''scan.png'', file_type = ''image/png'', file_size = 10485760\<rparr>
   \<and> \<not> analyzeBtn_disabled (processFile \<lparr>file_name = ''scan.png'', file_type = ''image/png'', file_size = 10485760\<rparr> detector0)
   \<and> \<not> acceptable \<lparr>file_name = ''scan.png'', file_type = ''image/png'', file_size = 10485761\<rparr>
   \<and> upload_state (processFile \<lparr>file_name = ''scan.png'', file_type = ''image/png'', file_size = 10485761\<rparr> detector0)
       = upload_state detector0
   \<and> \<not> acceptable \<lparr>file_name = ''notes.pdf'', file_type = ''application/pdf'', file_size = 10\<rparr>
   \<and> errorCard_display (processFile \<lparr>file_name = ''notes.pdf'', file_type = ''application/pdf'', file_size = 10\<rparr> detector0)
       = ''block''"
proof -
  let ?ok = "\<lparr>file_name = ''scan.png'', file_type = ''image/png'', file_size = 10485760\<rparr>"
  let ?big = "\<lparr>file_name = ''scan.png'', file_type = ''image/png'', file_size = 10485761\<rparr>"
  let ?pdf = "\<lparr>file_name = ''notes.pdf'', file_type = ''application/pdf'', file_size = 10\<rparr>"
  have a: "acceptable ?ok" by (simp add: acceptable_def)
  have b: "\<not> acceptable ?big" by (simp add: acceptable_def)
  have c: "\<not> acceptable ?pdf" by (simp add: acceptable_def)
  from a b c processFile_accepts_iff [of ?ok detector0]
    processFile_accepts_iff [of ?big detector0] processFile_accepts_iff [of ?pdf detector0]
  show ?thesis by simp
qed

subsection \<open>Rounding is monotone\<close>

lemma round_half_even_mono: "x \<le> y \<Longrightarrow> round_half_even x \<le> round_half_even y"
proof -
  assume xy: "x \<le> y"
  have fx: "\<lfloor>x\<rfloor> \<le> round_half_even x" "round_half_even x \<le> \<lfloor>x\<rfloor> + 1" for x :: rat
    by (auto simp: round_half_even_def Let_def)
  from xy have "\<lfloor>x\<rfloor> \<le> \<lfloor>y\<rfloor>" by (rule floor_mono)
  then consider "\<lfloor>x\<rfloor> < \<lfloor>y\<rfloor>" | "\<lfloor>x\<rfloor> = \<lfloor>y\<rfloor>" by linarith
  then show ?thesis
  proof cases
    case 1
    then show ?thesis using fx(2) [of x] fx(1) [of y] by linarith
  next
    case 2
    then show ?thesis using xy by (auto simp: round_half_even_def Let_def)
  qed
qed

lemma round_half_even_le: "x \<le> of_int n \<Longrightarrow> round_half_even x \<le> n"
  using round_half_even_mono [of x "of_int n"] by (simp add: round_half_even_of_int)

lemma binade_mono: "0 < x \<Longrightarrow> x \<le> y \<Longrightarrow> binade x \<le> binade y"
proof -
  assume "0 < x" "x \<le> y"
  then have "pow2 (binade x) \<le> y" using binade_bounds [of x] by simp
  then show ?thesis by (rule binade_ge)
qed

text \<open>The scaled significand of a positive number is at most \<open>2^53\<close>.\<close>

lemma significand_le:
  assumes "0 < x" "binade x \<le> e"
  shows "round_half_even (x / pow2 (e - 52)) \<le> 2 ^ 53"
proof -
  have u: "0 < pow2 (e - 52)" by (rule pow2_pos)
  have "x < pow2 (binade x + 1)" using binade_bounds [OF assms(1)] by simp
  also have "\<dots> \<le> pow2 (e + 1)" using assms(2) by (intro pow2_mono) simp
  also have "\<dots> = pow2 53 * pow2 (e - 52)"
    using pow2_add [of 53 "e - 52"] by (simp add: algebra_simps)
  finally have "x / pow2 (e - 52) < pow2 53" using u by (simp add: pos_divide_less_eq)
  then have "x / pow2 (e - 52) \<le> of_int (2 ^ 53)" by (simp add: pow2_def)
  then show ?thesis by (rule round_half_even_le)
qed

lemma fl_mono_pos:
  assumes x: "0 < x" and xy: "x \<le> y"
  shows "js_le (fl x) (fl y)"
proof -
  have y: "0 < y" using x xy by simp
  define ex where "ex = max (binade x) (- 1022)"
  define ey where "ey = max (binade y) (- 1022)"
  define mx where "mx = round_half_even (x / pow2 (ex - 52))"
  define my where "my = round_half_even (y / pow2 (ey - 52))"
  have flx: "fl x = (if 1023 < ex \<or> (ex = 1023 \<and> mx = 2 ^ 53) then PosInf else Num (of_int mx * pow2 (ex - 52)))"
    by (auto simp: fl_pos [OF x] Let_def ex_def mx_def)
  have fly: "fl y = (if 1023 < ey \<or> (ey = 1023 \<and> my = 2 ^ 53) then PosInf else Num (of_int my * pow2 (ey - 52)))"
    by (auto simp: fl_pos [OF y] Let_def ey_def my_def)
  have exy: "ex \<le> ey" using binade_mono [OF x xy] by (simp add: ex_def ey_def)
  have mx53: "mx \<le> 2 ^ 53" unfolding mx_def by (rule significand_le [OF x]) (simp add: ex_def)
  have my53: "my \<le> 2 ^ 53" unfolding my_def by (rule significand_le [OF y]) (simp add: ey_def)
  show ?thesis
  proof (cases "ex = ey")
    case True
    have "x / pow2 (ex - 52) \<le> y / pow2 (ex - 52)"
      using xy pow2_pos [of "ex - 52"] by (simp add: divide_right_mono)
    then have m: "mx \<le> my" unfolding mx_def my_def True [symmetric] by (rule round_half_even_mono)
    then have "(of_int mx :: rat) \<le> of_int my" by (simp only: of_int_le_iff)
    then have r: "of_int mx * pow2 (ex - 52) \<le> of_int my * pow2 (ex - 52)"
      using pow2_pos [of "ex - 52"] by (simp add: mult_right_mono)
    show ?thesis
      using m my53 r True by (auto simp: flx fly js_le_def)
  next
    case False
    with exy have lt: "ex < ey" by simp
    then have by': "ey = binade y" by (auto simp: ey_def ex_def)
    have "1 * pow2 (ey - 52) \<le> pow2 52 * pow2 (ey - 52)"
      using pow2_pos [of "ey - 52"] by (intro mult_right_mono) (simp_all add: pow2_def)
    have lowy: "pow2 ey \<le> of_int my * pow2 (ey - 52)"
    proof -
      have u: "0 < pow2 (ey - 52)" by (rule pow2_pos)
      have split: "pow2 ey = pow2 52 * pow2 (ey - 52)" using pow2_add [of 52 "ey - 52"] by simp
      have "pow2 52 * pow2 (ey - 52) \<le> y" using binade_bounds [OF y] split by' by simp
      then have "pow2 52 \<le> y / pow2 (ey - 52)" using u by (simp add: pos_le_divide_eq)
      then have "of_int (2 ^ 52) \<le> y / pow2 (ey - 52)" by (simp add: pow2_def)
      then have "2 ^ 52 \<le> my" unfolding my_def by (rule round_half_even_ge)
      then have "(of_int (2 ^ 52) :: rat) \<le> of_int my" by (simp only: of_int_le_iff)
      then have "pow2 52 * pow2 (ey - 52) \<le> of_int my * pow2 (ey - 52)"
        using u by (simp add: mult_right_mono pow2_def)
      with split show ?thesis by simp
    qed
    have upx: "of_int mx * pow2 (ex - 52) \<le> pow2 ey"
    proof -
      have "(of_int mx :: rat) \<le> of_int (2 ^ 53)" using mx53 by (simp only: of_int_le_iff)
      then have "of_int mx * pow2 (ex - 52) \<le> pow2 53 * pow2 (ex - 52)"
        using pow2_pos [of "ex - 52"] by (simp add: mult_right_mono pow2_def)
      also have "\<dots> = pow2 (ex + 1)"
        using pow2_add [of 53 "ex - 52"] by (simp add: algebra_simps)
      also have "\<dots> \<le> pow2 ey" using lt by (intro pow2_mono) simp
      finally show ?thesis .
    qed
    from upx lowy have r: "of_int mx * pow2 (ex - 52) \<le> of_int my * pow2 (ey - 52)" by simp
    show ?thesis
      using lt r by (auto simp: flx fly js_le_def)
  qed
qed

lemma fl_mono_nonneg: "0 \<le> x \<Longrightarrow> x \<le> y \<Longrightarrow> js_le (fl x) (fl y)"
proof -
  assume x: "0 \<le> x" and xy: "x \<le> y"
  show ?thesis
  proof (cases "x = 0")
    case True
    show ?thesis
    proof (cases "y = 0")
      case True
      with \<open>x = 0\<close> show ?thesis by (simp add: fl_def js_le_def)
    next
      case False
      with xy True have y: "0 < y" by simp
      have "0 \<le> of_int (round_half_even (y / pow2 (max (binade y) (- 1022) - 52))) * pow2 (max (binade y) (- 1022) - 52)"
      proof -
        have "0 \<le> y / pow2 (max (binade y) (- 1022) - 52)"
          using y pow2_pos [of "max (binade y) (- 1022) - 52"] by simp
        then have "of_int 0 \<le> y / pow2 (max (binade y) (- 1022) - 52)" by simp
        then have "0 \<le> round_half_even (y / pow2 (max (binade y) (- 1022) - 52))"
          by (rule round_half_even_ge)
        then show ?thesis using pow2_pos [of "max (binade y) (- 1022) - 52"] by simp
      qed
      moreover have "fl 0 = Num 0" by (simp add: fl_def)
      ultimately show ?thesis using True by (auto simp: fl_pos [OF y] Let_def js_le_def)
    qed
  next
    case False
    with x have "0 < x" by simp
    then show ?thesis using xy by (rule fl_mono_pos)
  qed
qed

subsection \<open>Progress\<close>

lemma length_filter_mono:
  "(\<And>x. x \<in> set xs \<Longrightarrow> P x \<Longrightarrow> Q x) \<Longrightarrow> length (filter P xs) \<le> length (filter Q xs)"
  by (induction xs) auto

lemma fl_unit_interval:
  assumes "0 \<le> q" "q \<le> 1"
  obtains a where "fl q = Num a" "0 \<le> a" "a \<le> 1"
proof -
  have f0: "fl 0 = Num 0" by (simp add: fl_def)
  have f1: "fl 1 = Num 1" using fl_int_exact [of 1] by simp
  have lo: "js_le (Num 0) (fl q)" using fl_mono_nonneg [of 0 q] assms f0 by simp
  have hi: "js_le (fl q) (Num 1)" using fl_mono_nonneg [of q 1] assms f1 by simp
  from lo hi show ?thesis
    by (cases "fl q") (auto simp: js_le_def intro: that)
qed

lemma percent_of_mono:
  assumes "0 < n" "c \<le> c'" "c' \<le> n"
  shows "js_le (percent_of c n) (percent_of c' n)"
proof -
  let ?q = "of_nat c / of_nat n :: rat" and ?q' = "of_nat c' / of_nat n :: rat"
  have n: "(0::rat) < of_nat n" using assms(1) by simp
  have q0: "0 \<le> ?q" by simp
  have qq: "?q \<le> ?q'" using assms(2) n by (simp add: divide_right_mono)
  have q1: "?q' \<le> 1" using assms(3) n by (simp add: pos_divide_le_eq)
  from fl_unit_interval [of ?q] q0 qq q1 obtain a where a: "fl ?q = Num a" "0 \<le> a" "a \<le> 1"
    by (metis order_trans)
  from fl_unit_interval [of ?q'] q0 qq q1 obtain a' where a': "fl ?q' = Num a'" "0 \<le> a'" "a' \<le> 1"
    by (metis order_trans)
  have "js_le (fl ?q) (fl ?q')" using q0 qq by (rule fl_mono_nonneg)
  then have aa: "a \<le> a'" by (simp add: a a' js_le_def)
  have d: "js_div (Num (of_nat c)) (Num (of_nat n)) = Num a" "js_div (Num (of_nat c')) (Num (of_nat n)) = Num a'"
    using assms(1) a a' by simp_all
  have "js_le (fl (a * 100)) (fl (a' * 100))"
    using a(2) aa by (intro fl_mono_nonneg) simp_all
  then show ?thesis unfolding percent_of_def d by simp
qed

lemma progress_percent_of:
  "progress required d = percent_of (length (filter (filled d) required)) (length required)"
  by (simp add: progress_def percent_of_def)

lemma filled_valid_tier: "consistent d \<Longrightarrow> filled d m = valid_tier d m"
  by (auto simp: consistent_def filled_def valid_tier_def validity_of_def split: option.splits if_splits)

text \<open>
  Claim C8. When one required field goes from empty or invalid to a valid state (a value
  that is not empty, tier valid-abnormal or valid-normal) and every other field stays as
  it is, the number of fields \<^verbatim>\<open>updateProgress\<close> counts does not decrease, and neither does
  the percentage it computes from the count in double arithmetic. On a consistent page
  the fields it counts are the fields whose tier is valid-abnormal or valid-normal.
\<close>

theorem progress_monotone:
  "n \<in> set required \<Longrightarrow> d n = Some f \<Longrightarrow>
   f_value f = [] \<or> validity_of f = Invalid \<Longrightarrow>
   f_value f' \<noteq> [] \<Longrightarrow> validity_of f' = ValidAbnormal \<or> validity_of f' = ValidNormal \<Longrightarrow>
   length (filter (filled d) required) \<le> length (filter (filled (d(n \<mapsto> f'))) required)
   \<and> js_le (progress required d) (progress required (d(n \<mapsto> f')))
   \<and> (consistent d \<longrightarrow>
        progress required d = percent_of (length (filter (valid_tier d) required)) (length required))"
proof -
  assume n: "n \<in> set required" and f: "d n = Some f"
    and old: "f_value f = [] \<or> validity_of f = Invalid"
    and v: "f_value f' \<noteq> []" and new: "validity_of f' = ValidAbnormal \<or> validity_of f' = ValidNormal"
  have notinv: "\<not> classList_contains (f_classes f') ''invalid''"
    using new by (auto simp: validity_of_def split: if_splits)
  have oldn: "\<not> filled d n"
    using f old by (auto simp: filled_def validity_of_def split: if_splits)
  have step: "filled (d(n \<mapsto> f')) m" if "filled d m" for m
    using that oldn v notinv by (cases "m = n") (auto simp: filled_def)
  have cnt: "length (filter (filled d) required) \<le> length (filter (filled (d(n \<mapsto> f'))) required)"
    by (rule length_filter_mono) (rule step)
  have pos: "0 < length required" using n by (cases required) auto
  have "js_le (percent_of (length (filter (filled d) required)) (length required))
              (percent_of (length (filter (filled (d(n \<mapsto> f'))) required)) (length required))"
    using pos cnt by (rule percent_of_mono) simp
  then have mono: "js_le (progress required d) (progress required (d(n \<mapsto> f')))"
    by (simp add: progress_percent_of)
  have spec: "progress required d = percent_of (length (filter (valid_tier d) required)) (length required)"
    if "consistent d"
  proof -
    have "filled d = valid_tier d" using filled_valid_tier [OF that] by (intro ext) simp
    then show ?thesis by (simp add: progress_percent_of)
  qed
  from cnt mono spec show ?thesis by blast
qed

theorem progress_monotone_witness:
  "length (filter (filled dom_age_empty) requiredFields)
     \<le> length (filter (filled (dom_age_empty(''age'' \<mapsto> age_45_valid))) requiredFields)
   \<and> js_le (progress requiredFields dom_age_empty)
            (progress requiredFields (dom_age_empty(''age'' \<mapsto> age_45_valid)))
   \<and> consistent dom_age_empty
   \<and> progress requiredFields dom_age_empty
       = percent_of (length (filter (valid_tier dom_age_empty) requiredFields)) (length requiredFields)"
proof -
  have c: "consistent dom_age_empty"
    by (auto simp: consistent_def dom_age_empty_def field_of_def validity_of_def classList_contains_def)
  have a: "''age'' \<in> set requiredFields" by (simp add: requiredFields_def)
  have b: "dom_age_empty ''age'' = Some (field_of ''age'' [])" by (simp add: dom_age_empty_def)
  have e: "f_value (field_of ''age'' []) = [] \<or> validity_of (field_of ''age'' []) = Invalid"
    by (simp add: field_of_def)
  have v: "f_value age_45_valid \<noteq> []" by (simp add: age_45_valid_def)
  have t: "validity_of age_45_valid = ValidAbnormal \<or> validity_of age_45_valid = ValidNormal"
    by (simp add: age_45_valid_def validity_of_def classList_contains_def)
  from progress_monotone [where d = dom_age_empty and n = "''age''" and required = requiredFields
      and f = "field_of ''age'' []" and f' = age_45_valid, OF a b e v t] c
  show ?thesis by blast
qed

subsection \<open>The submit button\<close>

lemma filled_iff_not_offending: "filled d m \<longleftrightarrow> \<not> offending d m"
  by (auto simp: filled_def offending_def validity_of_def split: option.splits)

text \<open>
  Claim C4, as amended. In the COVID-19 form \<^verbatim>\<open>updateSubmitButton\<close> leaves the submit control
  disabled exactly when some required field is missing, empty or marked invalid,
  whatever the state of the other fields. \<^verbatim>\<open>updateSubmitButton\<close> of the heart form leaves
  the control enabled in every state.
\<close>

theorem updateSubmitButton_blocks:
  "(cp_submitBtn p = Some b \<longrightarrow>
      (\<exists>b'. cp_submitBtn (updateSubmitButton required p) = Some b'
         \<and> (b_disabled b' \<longleftrightarrow> (\<exists>n \<in> set required. offending (cp_fields p) n))))
   \<and> (hp_submitBtn hp = Some hb \<longrightarrow>
      (\<exists>hb'. hp_submitBtn (heart_updateSubmitButton hp) = Some hb' \<and> \<not> hb_disabled hb'))"
proof -
  have all: "list_all (filled (cp_fields p)) required \<longleftrightarrow> \<not> (\<exists>n \<in> set required. offending (cp_fields p) n)"
    by (simp add: list_all_iff filled_iff_not_offending)
  have a: "\<exists>b'. cp_submitBtn (updateSubmitButton required p) = Some b'
         \<and> (b_disabled b' \<longleftrightarrow> (\<exists>n \<in> set required. offending (cp_fields p) n))"
    if "cp_submitBtn p = Some b"
    using that all by (simp add: updateSubmitButton_def Let_def)
  have h: "\<exists>hb'. hp_submitBtn (heart_updateSubmitButton hp) = Some hb' \<and> \<not> hb_disabled hb'"
    if "hp_submitBtn hp = Some hb"
    using that by (simp add: heart_updateSubmitButton_def Let_def)
  from a h show ?thesis by blast
qed

theorem updateSubmitButton_blocks_witness:
  "offending (cp_fields covid_page0) ''age''
   \<and> (\<exists>b'. cp_submitBtn (updateSubmitButton requiredFields covid_page0) = Some b' \<and> b_disabled b')
   \<and> (\<exists>hb'. hp_submitBtn (heart_updateSubmitButton heart_page0) = Some hb' \<and> \<not> hb_disabled hb')"
proof -
  have o: "offending (cp_fields covid_page0) ''age''"
    by (simp add: covid_page0_def dom_age_empty_def offending_def field_of_def)
  have a: "''age'' \<in> set requiredFields" by (simp add: requiredFields_def)
  have b: "cp_submitBtn covid_page0 = Some \<lparr>b_disabled = False, b_text = ''Get COVID-19 Assessment''\<rparr>"
    by (simp add: covid_page0_def)
  have hb: "hp_submitBtn heart_page0 = Some \<lparr>hb_disabled = False, hb_caption = CompleteAllFields, hb_background = []\<rparr>"
    by (simp add: heart_page0_def)
  from updateSubmitButton_blocks [where p = covid_page0 and required = requiredFields and hp = heart_page0]
    o a b hb
  show ?thesis by blast
qed

text \<open>
  The claim as stated fails in the heart form: with every field empty its submit control
  is enabled.
\<close>

theorem heart_button_enabled_counterexample:
  "getFieldValue heart_page0 ''age'' = []
   \<and> map_option hb_disabled (hp_submitBtn (heart_updateSubmitButton heart_page0)) = Some False
   \<and> map_option hb_caption (hp_submitBtn (heart_updateSubmitButton heart_page0)) = Some CompleteAllFields"
  by (simp add: heart_updateSubmitButton_def heart_page0_def Let_def getFieldValue_def
      heart_formFields_def field_of_def classList_contains_def)

subsection \<open>Validation before submission\<close>

lemma same_but_classes_refl: "same_but_classes d d"
proof -
  have "\<exists>cs. f = f\<lparr>f_classes := cs\<rparr>" for f :: field
    by (rule exI [of _ "f_classes f"]) simp
  then show ?thesis by (auto simp: same_but_classes_def split: option.splits)
qed

lemma same_but_classes_trans:
  "same_but_classes d d' \<Longrightarrow> same_but_classes d' d'' \<Longrightarrow> same_but_classes d d''"
  unfolding same_but_classes_def
proof (intro allI)
  fix m
  assume a: "\<forall>m. case d m of None \<Rightarrow> d' m = None | Some f \<Rightarrow> \<exists>cs. d' m = Some (f\<lparr>f_classes := cs\<rparr>)"
    and b: "\<forall>m. case d' m of None \<Rightarrow> d'' m = None | Some f \<Rightarrow> \<exists>cs. d'' m = Some (f\<lparr>f_classes := cs\<rparr>)"
  show "case d m of None \<Rightarrow> d'' m = None | Some f \<Rightarrow> \<exists>cs. d'' m = Some (f\<lparr>f_classes := cs\<rparr>)"
  proof (cases "d m")
    case None
    with a [rule_format, of m] b [rule_format, of m] show ?thesis by simp
  next
    case (Some f)
    with a [rule_format, of m] obtain cs where 1: "d' m = Some (f\<lparr>f_classes := cs\<rparr>)" by auto
    with b [rule_format, of m] obtain cs' where "d'' m = Some (f\<lparr>f_classes := cs, f_classes := cs'\<rparr>)" by auto
    then show ?thesis using Some by auto
  qed
qed

lemma validateField_classes_only:
  "\<exists>cs. snd (validateField ranges f) = f\<lparr>f_classes := cs\<rparr>"
  by (auto simp: validateField_def Let_def add_class_def split: option.splits)

lemma validateField_ignores_classes:
  "fst (validateField ranges (f\<lparr>f_classes := cs\<rparr>)) = fst (validateField ranges f)"
  by (auto simp: validateField_def Let_def fieldName_of_def split: option.splits)

lemma same_fails: "same_but_classes d d' \<Longrightarrow> fails ranges d' m = fails ranges d m"
proof -
  assume a: "same_but_classes d d'"
  show ?thesis
  proof (cases "d m")
    case None
    with a have "d' m = None" by (auto simp: same_but_classes_def split: option.splits dest: spec [of _ m])
    with None show ?thesis by (simp add: fails_def)
  next
    case (Some f)
    with a obtain cs where "d' m = Some (f\<lparr>f_classes := cs\<rparr>)"
      by (auto simp: same_but_classes_def split: option.splits dest: spec [of _ m])
    with Some show ?thesis by (simp add: fails_def validateField_ignores_classes)
  qed
qed

lemma same_error_of: "same_but_classes d d' \<Longrightarrow> error_of ranges d' m = error_of ranges d m"
proof -
  assume a: "same_but_classes d d'"
  show ?thesis
  proof (cases "d m")
    case None
    with a have "d' m = None" by (auto simp: same_but_classes_def split: option.splits dest: spec [of _ m])
    with None show ?thesis by (simp add: error_of_def getFieldLabel_def)
  next
    case (Some f)
    with a obtain cs where "d' m = Some (f\<lparr>f_classes := cs\<rparr>)"
      by (auto simp: same_but_classes_def split: option.splits dest: spec [of _ m])
    with Some show ?thesis by (simp add: error_of_def getFieldLabel_def)
  qed
qed

lemma same_update:
  "d m = Some f \<Longrightarrow> same_but_classes d (d(m \<mapsto> f\<lparr>f_classes := cs\<rparr>))"
proof -
  assume a: "d m = Some f"
  have "\<exists>cs. g = g\<lparr>f_classes := cs\<rparr>" for g :: field
    by (rule exI [of _ "f_classes g"]) simp
  with a show ?thesis by (auto simp: same_but_classes_def split: option.splits)
qed

lemma validateForm_step_eq:
  "\<exists>d'. validateForm_step ranges (d, errors, isValid) m =
          (d', errors @ (if fails ranges d m then [error_of ranges d m] else []),
           isValid \<and> \<not> fails ranges d m)
        \<and> same_but_classes d d'"
proof (cases "d m")
  case None
  then show ?thesis
    by (auto simp: validateForm_step_def fails_def same_but_classes_refl)
next
  case (Some f)
  show ?thesis
  proof (cases "f_value f = []")
    case True
    with Some show ?thesis
      by (auto simp: validateForm_step_def fails_def error_of_def same_but_classes_refl)
  next
    case False
    obtain cs where cs: "snd (validateField ranges f) = f\<lparr>f_classes := cs\<rparr>"
      using validateField_classes_only by blast
    obtain ok where ok: "fst (validateField ranges f) = ok" by simp
    have vf: "validateField ranges f = (ok, f\<lparr>f_classes := cs\<rparr>)"
      using cs ok by (cases "validateField ranges f") simp
    have fl: "fails ranges d m = (\<not> ok)"
      using Some False ok by (simp add: fails_def)
    have lab: "getFieldLabel (d(m \<mapsto> f\<lparr>f_classes := cs\<rparr>)) m = getFieldLabel d m"
      using Some by (simp add: getFieldLabel_def)
    have er: "error_of ranges d m = getFieldLabel d m @ '' has an invalid value''"
      using Some False by (simp add: error_of_def)
    have st: "validateForm_step ranges (d, errors, isValid) m =
        (if \<not> ok then (d(m \<mapsto> f\<lparr>f_classes := cs\<rparr>),
                          errors @ [getFieldLabel d m @ '' has an invalid value''], False)
         else (d(m \<mapsto> f\<lparr>f_classes := cs\<rparr>), errors, isValid))"
      using Some False by (simp add: validateForm_step_def vf lab)
    show ?thesis
      using same_update [where d = d and m = m and f = f and cs = cs, OF Some]
      by (cases ok) (simp_all add: st fl er)
  qed
qed

lemma validateForm_loop:
  "\<exists>d'. foldl (validateForm_step ranges) (d, errors, isValid) xs =
          (d', errors @ map (error_of ranges d) (filter (fails ranges d) xs),
           isValid \<and> (\<forall>m \<in> set xs. \<not> fails ranges d m))
        \<and> same_but_classes d d'"
proof (induction xs arbitrary: d errors isValid)
  case Nil
  show ?case by (simp add: same_but_classes_refl)
next
  case (Cons m xs)
  from validateForm_step_eq [of ranges d errors isValid m] obtain d1 where
    s1: "validateForm_step ranges (d, errors, isValid) m =
          (d1, errors @ (if fails ranges d m then [error_of ranges d m] else []),
           isValid \<and> \<not> fails ranges d m)"
    and e1: "same_but_classes d d1" by blast
  from Cons.IH [of d1 "errors @ (if fails ranges d m then [error_of ranges d m] else [])"
      "isValid \<and> \<not> fails ranges d m"]
  obtain d2 where
    s2: "foldl (validateForm_step ranges)
           (d1, errors @ (if fails ranges d m then [error_of ranges d m] else []),
            isValid \<and> \<not> fails ranges d m) xs =
          (d2, (errors @ (if fails ranges d m then [error_of ranges d m] else []))
                 @ map (error_of ranges d1) (filter (fails ranges d1) xs),
           (isValid \<and> \<not> fails ranges d m) \<and> (\<forall>m \<in> set xs. \<not> fails ranges d1 m))"
    and e2: "same_but_classes d1 d2" by blast
  have f: "fails ranges d1 = fails ranges d" using same_fails [OF e1] by (intro ext) simp
  have g: "error_of ranges d1 = error_of ranges d" using same_error_of [OF e1] by (intro ext) simp
  have "foldl (validateForm_step ranges) (d, errors, isValid) (m # xs) =
          (d2, errors @ map (error_of ranges d) (filter (fails ranges d) (m # xs)),
           isValid \<and> (\<forall>m \<in> set (m # xs). \<not> fails ranges d m))"
    using s1 s2 by (auto simp: f g)
  moreover have "same_but_classes d d2" using e1 e2 by (rule same_but_classes_trans)
  ultimately show ?case by blast
qed

lemma occurs_in_join: "e \<in> set es \<Longrightarrow> occurs_in e (join sep es)"
proof (induction sep es rule: join.induct)
  case (1 sep)
  then show ?case by simp
next
  case (2 sep x)
  then have "x = [] @ e @ []" by simp
  then show ?case unfolding occurs_in_def join.simps by blast
next
  case (3 sep x y xs)
  show ?case
  proof (cases "e = x")
    case True
    then have "join sep (x # y # xs) = [] @ e @ (sep @ join sep (y # xs))" by simp
    then show ?thesis unfolding occurs_in_def by blast
  next
    case False
    with 3 obtain u v where "join sep (y # xs) = u @ e @ v" by (auto simp: occurs_in_def)
    then have "join sep (x # y # xs) = (x @ sep @ u) @ e @ v" by simp
    then show ?thesis unfolding occurs_in_def by blast
  qed
qed

lemma occurs_in_append: "occurs_in e s \<Longrightarrow> occurs_in e (h @ s)"
proof -
  assume "occurs_in e s"
  then obtain u v where "s = u @ e @ v" by (auto simp: occurs_in_def)
  then have "h @ s = (h @ u) @ e @ v" by simp
  then show ?thesis unfolding occurs_in_def by blast
qed

lemma parseInt_range:
  fixes a b :: int
  assumes "\<bar>a\<bar> < 2 ^ 53" "\<bar>b\<bar> < 2 ^ 53"
  shows "(isNaN (parseInt s) \<or> js_lt (parseInt s) (Num (of_int a)) \<or> js_gt (parseInt s) (Num (of_int b)))
     \<longleftrightarrow> (case mathInt s of None \<Rightarrow> True | Some k \<Rightarrow> k < a \<or> b < k)"
proof (cases "mathInt s")
  case None
  then show ?thesis by (simp add: parseInt_def isNaN_def)
next
  case (Some k)
  then show ?thesis
    using fl_int_compare(1) [OF assms(1), of k] fl_int_compare(2) [OF assms(2), of k] fl_not_NaN [of "of_int k"]
    by (simp add: parseInt_def isNaN_def js_gt_def)
qed

lemma parseInt_01:
  "(isNaN (parseInt s) \<or> js_lt (parseInt s) (Num 0) \<or> js_gt (parseInt s) (Num 1))
     \<longleftrightarrow> (case mathInt s of None \<Rightarrow> True | Some k \<Rightarrow> k < 0 \<or> 1 < k)"
  using parseInt_range [of 0 1 s] by simp

lemma parseInt_age:
  "(isNaN (parseInt s) \<or> js_lt (parseInt s) (Num 1) \<or> js_gt (parseInt s) (Num 120))
     \<longleftrightarrow> (case mathInt s of None \<Rightarrow> True | Some k \<Rightarrow> k < 1 \<or> 120 < k)"
  using parseInt_range [of 1 120 s] by simp

lemma prediction_check_step:
  "prediction_check inputs (m # rest) =
     (case mathInt (inputs m) of
        None \<Rightarrow> Some [Alert (pred_alert m), Focus]
      | Some k \<Rightarrow>
          if k < 0 \<or> 1 < k then
            (if m = ''age'' then
               (if k < 1 \<or> 120 < k then Some [Alert (pred_alert m), Focus]
                else prediction_check inputs rest)
             else Some [Alert (pred_alert m), Focus])
          else prediction_check inputs rest)"
proof -
  have "prediction_check inputs (m # rest) =
     (if isNaN (parseInt (inputs m)) \<or> js_lt (parseInt (inputs m)) (Num 0) \<or> js_gt (parseInt (inputs m)) (Num 1) then
        (if m = ''age'' then
           (if isNaN (parseInt (inputs m)) \<or> js_lt (parseInt (inputs m)) (Num 1) \<or> js_gt (parseInt (inputs m)) (Num 120) then
              Some [Alert ''Please enter a valid age between 1 and 120'', Focus]
            else prediction_check inputs rest)
         else Some [Alert (''Please enter 0 or 1 for '' @ replace_first m ''_'' '' ''), Focus])
      else prediction_check inputs rest)"
    by (simp add: Let_def)
  then show ?thesis
    unfolding parseInt_01 parseInt_age
    by (auto simp: pred_alert_def split: option.splits)
qed

lemma prediction_check_acceptable:
  "\<forall>m \<in> set xs. pred_acceptable inputs m \<Longrightarrow> prediction_check inputs xs = None"
proof (induction xs)
  case Nil
  show ?case by simp
next
  case (Cons m xs)
  then have ih: "prediction_check inputs xs = None" by simp
  have a: "pred_acceptable inputs m" using Cons.prems by simp
  show ?case
    unfolding prediction_check_step [of inputs m] using ih a
    by (auto simp: pred_acceptable_def split: option.splits if_splits)
qed

lemma prediction_check_first:
  "\<forall>m \<in> set pre. pred_acceptable inputs m \<Longrightarrow> pred_offending inputs n \<Longrightarrow>
   prediction_check inputs (pre @ n # post) = Some [Alert (pred_alert n), Focus]"
proof (induction pre)
  case Nil
  then show ?case
    unfolding append_Nil prediction_check_step
    by (auto simp: pred_offending_def split: option.splits if_splits)
next
  case (Cons m pre)
  then have "prediction_check inputs (pre @ n # post) = Some [Alert (pred_alert n), Focus]" by simp
  moreover have "pred_acceptable inputs m" using Cons.prems by simp
  ultimately show ?case
    unfolding append_Cons prediction_check_step [of inputs m]
    by (auto simp: pred_acceptable_def split: option.splits if_splits)
qed

lemma validateForm_eq:
  "\<exists>d'. same_but_classes (cp_fields p) d' \<and>
     validateForm ranges required p =
       (if \<forall>m \<in> set required. \<not> fails ranges (cp_fields p) m then (True, p\<lparr>cp_fields := d'\<rparr>)
        else (False, covid_showError
                (error_list_message (map (error_of ranges (cp_fields p)) (filter (fails ranges (cp_fields p)) required)))
                (p\<lparr>cp_fields := d'\<rparr>)))"
proof -
  from validateForm_loop [of ranges "cp_fields p" "[]" True required] obtain d' where
    l: "foldl (validateForm_step ranges) (cp_fields p, [], True) required =
          (d', map (error_of ranges (cp_fields p)) (filter (fails ranges (cp_fields p)) required),
           \<forall>m \<in> set required. \<not> fails ranges (cp_fields p) m)"
    and s: "same_but_classes (cp_fields p) d'" by auto
  show ?thesis
    by (rule exI [of _ d']) (simp add: s validateForm_def l)
qed

lemma error_listed:
  "m \<in> set required \<Longrightarrow> fails ranges d m \<Longrightarrow>
   occurs_in (error_of ranges d m) (error_list_message (map (error_of ranges d) (filter (fails ranges d) required)))"
proof -
  assume "m \<in> set required" "fails ranges d m"
  then have "error_of ranges d m \<in> set (map (error_of ranges d) (filter (fails ranges d) required))" by simp
  then have "occurs_in (error_of ranges d m)
     (join ([CHR 0x0A] @ bullet @ '' '') (map (error_of ranges d) (filter (fails ranges d) required)))"
    by (rule occurs_in_join)
  then show ?thesis
    unfolding error_list_message_def
    using occurs_in_append [where h = "''Please correct the following errors:'' @ [CHR 0x0A] @ bullet @ '' ''"]
    by simp
qed

text \<open>
  Claim C2, as amended. In the COVID-19 form, when a required field of the page is empty
  or fails validation, the submit handler issues no request and shows one message that
  contains, for every such field, its label followed by what is wrong with it. In the
  prediction form, when a field is offending and the fields before it are acceptable, the
  submit handler issues no request and alerts the message of that first field only; with
  every field acceptable and no gender selected it issues no request and asks for the
  gender.
\<close>

theorem validateForm_aborts:
  "(n \<in> set required \<and> fails ranges (cp_fields p) n \<longrightarrow>
      cp_requests (on_submit ranges required p) = cp_requests p
    \<and> cp_pending (on_submit ranges required p) = cp_pending p
    \<and> (\<exists>msg. cp_error (on_submit ranges required p) = Some msg
         \<and> (\<forall>m \<in> set required. fails ranges (cp_fields p) m \<longrightarrow>
               occurs_in (error_of ranges (cp_fields p) m) msg)))
   \<and> (prediction_requiredFields = pre @ n' # post
       \<and> (\<forall>m \<in> set pre. pred_acceptable (pp_inputs q) m) \<and> pred_offending (pp_inputs q) n' \<longrightarrow>
      pp_requests (prediction_on_submit q) = pp_requests q
    \<and> pp_pending (prediction_on_submit q) = pp_pending q
    \<and> pp_effects (prediction_on_submit q) = pp_effects q @ [Alert (pred_alert n'), Focus])
   \<and> ((\<forall>m \<in> set prediction_requiredFields. pred_acceptable (pp_inputs q) m) \<and> pp_gender q = None \<longrightarrow>
      pp_requests (prediction_on_submit q) = pp_requests q
    \<and> pp_pending (prediction_on_submit q) = pp_pending q
    \<and> pp_effects (prediction_on_submit q) = pp_effects q @ [Alert ''Please select a gender''])"
proof -
  have covid: "cp_requests (on_submit ranges required p) = cp_requests p
    \<and> cp_pending (on_submit ranges required p) = cp_pending p
    \<and> (\<exists>msg. cp_error (on_submit ranges required p) = Some msg
         \<and> (\<forall>m \<in> set required. fails ranges (cp_fields p) m \<longrightarrow>
               occurs_in (error_of ranges (cp_fields p) m) msg))"
    if n: "n \<in> set required \<and> fails ranges (cp_fields p) n"
  proof -
    from validateForm_eq [of p ranges required] obtain d' where
      e: "validateForm ranges required p =
       (if \<forall>m \<in> set required. \<not> fails ranges (cp_fields p) m then (True, p\<lparr>cp_fields := d'\<rparr>)
        else (False, covid_showError
                (error_list_message (map (error_of ranges (cp_fields p)) (filter (fails ranges (cp_fields p)) required)))
                (p\<lparr>cp_fields := d'\<rparr>)))"
      by blast
    have ne: "\<not> (\<forall>m \<in> set required. \<not> fails ranges (cp_fields p) m)" using n by blast
    have v: "validateForm ranges required p =
           (False, covid_showError
                (error_list_message (map (error_of ranges (cp_fields p)) (filter (fails ranges (cp_fields p)) required)))
                (p\<lparr>cp_fields := d'\<rparr>))"
      unfolding e using ne by (rule if_not_P)
    show ?thesis
      using error_listed [of _ required ranges "cp_fields p"]
      by (simp add: on_submit_def v covid_showError_def)
  qed
  have pred: "pp_requests (prediction_on_submit q) = pp_requests q
    \<and> pp_pending (prediction_on_submit q) = pp_pending q
    \<and> pp_effects (prediction_on_submit q) = pp_effects q @ [Alert (pred_alert n'), Focus]"
    if h: "prediction_requiredFields = pre @ n' # post
       \<and> (\<forall>m \<in> set pre. pred_acceptable (pp_inputs q) m) \<and> pred_offending (pp_inputs q) n'"
  proof -
    from h have "prediction_check (pp_inputs q) prediction_requiredFields = Some [Alert (pred_alert n'), Focus]"
      using prediction_check_first [of pre "pp_inputs q" n' post] by simp
    then show ?thesis by (simp add: prediction_on_submit_def prediction_validateForm_def)
  qed
  have gender: "pp_requests (prediction_on_submit q) = pp_requests q
    \<and> pp_pending (prediction_on_submit q) = pp_pending q
    \<and> pp_effects (prediction_on_submit q) = pp_effects q @ [Alert ''Please select a gender'']"
    if h: "(\<forall>m \<in> set prediction_requiredFields. pred_acceptable (pp_inputs q) m) \<and> pp_gender q = None"
  proof -
    from h have "prediction_check (pp_inputs q) prediction_requiredFields = None"
      using prediction_check_acceptable [of prediction_requiredFields "pp_inputs q"] by simp
    with h show ?thesis by (simp add: prediction_on_submit_def prediction_validateForm_def)
  qed
  from covid pred gender show ?thesis by blast
qed

theorem validateForm_aborts_witness:
  "cp_requests (on_submit validationRanges requiredFields covid_page_age150) = []
   \<and> (\<exists>msg. cp_error (on_submit validationRanges requiredFields covid_page_age150) = Some msg
        \<and> occurs_in ''Age has an invalid value'' msg \<and> occurs_in ''Leukocytes is required'' msg)
   \<and> pp_requests (prediction_on_submit prediction_page0) = []
   \<and> pp_effects (prediction_on_submit prediction_page0) = [Alert ''Please enter 0 or 1 for smoking'', Focus]"
proof -
  have r: "''age'' \<in> set requiredFields" "''leukocytes'' \<in> set requiredFields"
    by (simp_all add: requiredFields_def)
  have f: "fails validationRanges (cp_fields covid_page_age150) ''age''"
    "fails validationRanges (cp_fields covid_page_age150) ''leukocytes''"
    by code_simp+
  have e: "error_of validationRanges (cp_fields covid_page_age150) ''age'' = ''Age has an invalid value''"
    "error_of validationRanges (cp_fields covid_page_age150) ''leukocytes'' = ''Leukocytes is required''"
    by code_simp+
  have c: "cp_requests covid_page_age150 = []"
    by (simp add: covid_page_age150_def covid_page0_def)
  have s: "prediction_requiredFields = [''age''] @ ''smoking'' # tl (tl prediction_requiredFields)"
    by (simp add: prediction_requiredFields_def)
  have a: "\<forall>m \<in> set [''age'']. pred_acceptable (pp_inputs prediction_page0) m"
    "pred_offending (pp_inputs prediction_page0) ''smoking''"
    by code_simp+
  have t: "pred_alert ''smoking'' = ''Please enter 0 or 1 for smoking''" by code_simp
  have q: "pp_requests prediction_page0 = []" "pp_effects prediction_page0 = []"
    by (simp_all add: prediction_page0_def)
  from validateForm_aborts [where n = "''age''" and required = requiredFields
      and ranges = validationRanges and p = covid_page_age150 and q = prediction_page0
      and pre = "[''age'']" and n' = "''smoking''" and post = "tl (tl prediction_requiredFields)"]
    r f s a
  have "cp_requests (on_submit validationRanges requiredFields covid_page_age150) = cp_requests covid_page_age150
    \<and> (\<exists>msg. cp_error (on_submit validationRanges requiredFields covid_page_age150) = Some msg
         \<and> (\<forall>m \<in> set requiredFields. fails validationRanges (cp_fields covid_page_age150) m \<longrightarrow>
               occurs_in (error_of validationRanges (cp_fields covid_page_age150) m) msg))
    \<and> pp_requests (prediction_on_submit prediction_page0) = pp_requests prediction_page0
    \<and> pp_effects (prediction_on_submit prediction_page0)
        = pp_effects prediction_page0 @ [Alert (pred_alert ''smoking''), Focus]"
    by blast
  then show ?thesis
    using r f e c t q by (metis append_Nil)
qed

text \<open>
  The claim as stated fails in the prediction form: with two offending fields the
  message names the first one only.
\<close>

theorem first_field_only_counterexample:
  "pred_offending (pp_inputs prediction_page0) ''smoking''
   \<and> pred_offending (pp_inputs prediction_page0) ''anxiety''
   \<and> pp_effects (prediction_on_submit prediction_page0)
       = [Alert ''Please enter 0 or 1 for smoking'', Focus]
   \<and> includes_str ''Please enter 0 or 1 for smoking'' ''anxiety'' = False"
  by code_simp

subsection \<open>Requests in flight\<close>

lemma validateForm_frame:
  "cp_submitBtn (snd (validateForm ranges required p)) = cp_submitBtn p
   \<and> cp_pending (snd (validateForm ranges required p)) = cp_pending p
   \<and> cp_requests (snd (validateForm ranges required p)) = cp_requests p"
proof -
  obtain d errors isValid where
    "foldl (validateForm_step ranges) (cp_fields p, [], True) required = (d, errors, isValid)"
    by (cases "foldl (validateForm_step ranges) (cp_fields p, [], True) required") auto
  then show ?thesis by (simp add: validateForm_def covid_showError_def)
qed

lemma on_submit_cases:
  "(cp_submitBtn (on_submit ranges required p) = cp_submitBtn p
      \<and> cp_pending (on_submit ranges required p) = cp_pending p
      \<and> cp_requests (on_submit ranges required p) = cp_requests p)
   \<or> (cp_submitBtn (on_submit ranges required p)
        = map_option (\<lambda>b. b\<lparr>b_disabled := True, b_text := ''Analyzing...''\<rparr>) (cp_submitBtn p)
      \<and> cp_pending (on_submit ranges required p) = Suc (cp_pending p)
      \<and> length (cp_requests (on_submit ranges required p)) = Suc (length (cp_requests p)))"
proof -
  obtain ok p' where v: "validateForm ranges required p = (ok, p')"
    by (cases "validateForm ranges required p") auto
  with validateForm_frame [of ranges required p]
  have f: "cp_submitBtn p' = cp_submitBtn p" "cp_pending p' = cp_pending p" "cp_requests p' = cp_requests p"
    by simp_all
  show ?thesis
    by (cases ok) (simp_all add: on_submit_def v f submitPrediction_def Let_def)
qed

lemma displayResults_frame:
  "cp_submitBtn (fst (covid_displayResults result p)) = cp_submitBtn p
   \<and> cp_pending (fst (covid_displayResults result p)) = cp_pending p
   \<and> cp_requests (fst (covid_displayResults result p)) = cp_requests p"
  by (simp add: covid_displayResults_def Let_def split: option.splits)

lemma settle_effect:
  "0 < cp_pending p \<Longrightarrow>
   cp_pending (settle outcome p) = cp_pending p - 1
   \<and> cp_requests (settle outcome p) = cp_requests p
   \<and> cp_submitBtn (settle outcome p)
       = map_option (\<lambda>b. b\<lparr>b_disabled := False, b_text := ''Get COVID-19 Assessment''\<rparr>) (cp_submitBtn p)"
proof -
  assume pos: "0 < cp_pending p"
  show ?thesis
  proof (cases outcome)
    case Rejected
    with pos show ?thesis by (simp add: settle_def Let_def covid_showError_def)
  next
    case (RespondedOk result)
    obtain p' threw where d: "covid_displayResults result p = (p', threw)"
      by (cases "covid_displayResults result p") auto
    with displayResults_frame [of result p]
    have "cp_submitBtn p' = cp_submitBtn p" "cp_pending p' = cp_pending p" "cp_requests p' = cp_requests p"
      by simp_all
    with pos RespondedOk d show ?thesis
      by (simp add: settle_def Let_def covid_showError_def)
  next
    case (RespondedError e)
    with pos show ?thesis by (simp add: settle_def Let_def covid_showError_def)
  qed
qed

lemma single_flight_step:
  "single_flight p \<Longrightarrow> single_flight (covid_step ranges required p e)"
proof (cases e)
  case SubmitAttempt
  assume sf: "single_flight p"
  then obtain b where b: "cp_submitBtn p = Some b" by (auto simp: single_flight_def split: option.splits)
  show ?thesis
  proof (cases "b_disabled b")
    case True
    with sf b SubmitAttempt show ?thesis by (simp add: covid_step_def submit_attempt_def)
  next
    case False
    with sf b have z: "cp_pending p = 0" by (auto simp: single_flight_def)
    from on_submit_cases [of ranges required p] z b sf
    have "single_flight (on_submit ranges required p)"
      by (auto simp: single_flight_def)
    with False b SubmitAttempt show ?thesis by (simp add: covid_step_def submit_attempt_def)
  qed
next
  case (RequestEnds outcome)
  assume sf: "single_flight p"
  show ?thesis
  proof (cases "cp_pending p = 0")
    case True
    with sf RequestEnds show ?thesis by (simp add: covid_step_def settle_def)
  next
    case False
    then have "0 < cp_pending p" by simp
    from settle_effect [OF this, of outcome] sf
    have "single_flight (settle outcome p)"
      by (auto simp: single_flight_def split: option.splits)
    with RequestEnds show ?thesis by (simp add: covid_step_def)
  qed
qed

lemma single_flight_run:
  "single_flight p \<Longrightarrow> single_flight (covid_run ranges required es p)"
  unfolding covid_run_def
  by (induction es arbitrary: p) (simp_all add: single_flight_step)

text \<open>
  Claim C3, as amended. On a COVID-19 page with a submit control and no request pending,
  after every sequence of submit attempts and request completions at most one request is
  pending; while one is pending the submit control is disabled and a further submit
  attempt changes nothing; and a submit attempt never issues more than one request. The
  CV form has no such guard: each of its submit attempts issues a request.
\<close>

theorem one_request_in_flight:
  "(cp_submitBtn p \<noteq> None \<and> cp_pending p = 0 \<longrightarrow>
      cp_pending (covid_run ranges required es p) \<le> 1
    \<and> (cp_pending (covid_run ranges required es p) = 1 \<longrightarrow>
         (\<exists>b. cp_submitBtn (covid_run ranges required es p) = Some b \<and> b_disabled b)
         \<and> submit_attempt ranges required (covid_run ranges required es p)
             = covid_run ranges required es p)
    \<and> length (cp_requests (submit_attempt ranges required (covid_run ranges required es p)))
         \<le> Suc (length (cp_requests (covid_run ranges required es p))))
   \<and> cv_pending (cv_on_submit q) = Suc (cv_pending q)
   \<and> length (cv_requests (cv_on_submit q)) = Suc (length (cv_requests q))"
proof -
  have covid: "cp_pending (covid_run ranges required es p) \<le> 1
    \<and> (cp_pending (covid_run ranges required es p) = 1 \<longrightarrow>
         (\<exists>b. cp_submitBtn (covid_run ranges required es p) = Some b \<and> b_disabled b)
         \<and> submit_attempt ranges required (covid_run ranges required es p)
             = covid_run ranges required es p)
    \<and> length (cp_requests (submit_attempt ranges required (covid_run ranges required es p)))
         \<le> Suc (length (cp_requests (covid_run ranges required es p)))"
    if h: "cp_submitBtn p \<noteq> None \<and> cp_pending p = 0"
  proof -
    from h have "single_flight p" by (auto simp: single_flight_def)
    then have sf: "single_flight (covid_run ranges required es p)" by (rule single_flight_run)
    let ?p = "covid_run ranges required es p"
    have one: "length (cp_requests (submit_attempt ranges required ?p)) \<le> Suc (length (cp_requests ?p))"
      using on_submit_cases [of ranges required ?p]
      by (auto simp: submit_attempt_def split: option.splits)
    from sf one show ?thesis
      by (auto simp: single_flight_def submit_attempt_def split: option.splits)
  qed
  have cv: "cv_pending (cv_on_submit q) = Suc (cv_pending q)
     \<and> length (cv_requests (cv_on_submit q)) = Suc (length (cv_requests q))"
    by (simp add: cv_on_submit_def)
  from covid cv show ?thesis by blast
qed

theorem one_request_in_flight_witness:
  "cp_pending (covid_run validationRanges requiredFields [SubmitAttempt] covid_page_age45) = 1
   \<and> (\<exists>b. cp_submitBtn (covid_run validationRanges requiredFields [SubmitAttempt] covid_page_age45) = Some b
          \<and> b_disabled b)
   \<and> covid_run validationRanges requiredFields [SubmitAttempt, SubmitAttempt] covid_page_age45
       = covid_run validationRanges requiredFields [SubmitAttempt] covid_page_age45
   \<and> length (cp_requests (covid_run validationRanges requiredFields [SubmitAttempt, SubmitAttempt] covid_page_age45)) = 1"
proof -
  let ?p = "covid_run validationRanges requiredFields [SubmitAttempt] covid_page_age45"
  have h: "cp_submitBtn covid_page_age45 \<noteq> None \<and> cp_pending covid_page_age45 = 0"
    by (simp add: covid_page_age45_def covid_page0_def)
  have one: "cp_pending ?p = 1" "length (cp_requests ?p) = 1"
    by code_simp+
  have two: "covid_run validationRanges requiredFields [SubmitAttempt, SubmitAttempt] covid_page_age45
      = submit_attempt validationRanges requiredFields ?p"
    by (simp add: covid_run_def covid_step_def)
  from one_request_in_flight [where p = covid_page_age45 and ranges = validationRanges
      and required = requiredFields and es = "[SubmitAttempt]" and q = cv_page0] h one two
  show ?thesis by simp
qed

text \<open>
  The claim as stated fails in the CV form: two submit attempts in a row leave two
  requests pending.
\<close>

theorem cv_two_requests_counterexample:
  "cv_pending (cv_on_submit (cv_on_submit cv_page0)) = 2
   \<and> length (cv_requests (cv_on_submit (cv_on_submit cv_page0))) = 2"
  by (simp add: cv_on_submit_def cv_page0_def)

end
